theory Spec2Isabelle
  imports Complex_Main
begin

section \<open>Pairwise token similarities (scripts/test\_spacy.py)\<close>

text \<open>
  The script parses a fixed text into a sequence of tokens with an external
  language model and runs two nested \<open>for\<close> loops over that sequence.  The
  tokenizer and the similarity measure belong to the external library, so the
  token sequence and the similarity function are parameters of the model.  A
  printed line is the triple of values handed to \<open>print\<close>.
\<close>

type_synonym ('t, 's) line = "'t \<times> 't \<times> 's"

fun inner_loop :: "('t \<Rightarrow> 't \<Rightarrow> 's) \<Rightarrow> 't \<Rightarrow> 't list \<Rightarrow> ('t, 's) line list" where
  "inner_loop similarity token1 [] = []"
| "inner_loop similarity token1 (token2 # rest) =
     (token1, token2, similarity token1 token2) # inner_loop similarity token1 rest"

fun outer_loop :: "('t \<Rightarrow> 't \<Rightarrow> 's) \<Rightarrow> 't list \<Rightarrow> 't list \<Rightarrow> ('t, 's) line list" where
  "outer_loop similarity tokens [] = []"
| "outer_loop similarity tokens (token1 # rest) =
     inner_loop similarity token1 tokens @ outer_loop similarity tokens rest"

definition test_spacy :: "('t \<Rightarrow> 't \<Rightarrow> 's) \<Rightarrow> 't list \<Rightarrow> ('t, 's) line list" where
  "test_spacy similarity tokens = outer_loop similarity tokens tokens"

section \<open>Selection of representative fits (SpiralsTrainer.visualize)\<close>

text \<open>
  \<open>visualize\<close> receives the list \<open>metric\<close> of per-sequence values and builds
  \<^verbatim>\<open>sel_idx = np.concatenate((np.argsort(metric)[:4], np.argsort(metric)[-4:][::-1]))\<close>.
  \<open>np.argsort\<close> returns the indices that sort its argument; it is modelled by
  the insertion sort of the index list \<open>[0..<n]\<close> under the key \<open>metric ! i\<close>.
  Which of two equal values comes first is left open by the library, so the
  facts below are derived from \<open>is_argsort\<close> alone: the result is a permutation
  of the indices along which the values ascend.  The slice \<open>[:4]\<close> is \<open>take 4\<close>,
  the slice \<open>[-4:]\<close> keeps the last four elements (all of them when there are
  fewer), and \<open>[::-1]\<close> reverses.

  Every list handed to the plotting loop (\<open>sel_metric\<close>, \<open>sel_true\<close>, \<open>sel_data\<close>,
  \<open>sel_obsv\<close>, \<open>sel_pred\<close>, \<open>sel_rng\<close>) is a comprehension over \<open>sel_idx\<close>, and the
  loop \<open>for i in range(len(sel_idx))\<close> draws entry \<open>i\<close> on the axis in row
  \<open>i % 4\<close> and column \<open>i // 4\<close>.  A panel records that axis, the index of the
  sequence drawn there (the label \<open>Spiral ...\<close>) and the value in its title.
\<close>

definition argsort :: "'a::linorder list \<Rightarrow> nat list" where
  "argsort metric = sort_key (\<lambda>i. metric ! i) [0..<length metric]"

definition is_argsort :: "'a::linorder list \<Rightarrow> nat list \<Rightarrow> bool" where
  "is_argsort metric s \<longleftrightarrow>
     sort s = [0..<length metric] \<and> sorted (map (\<lambda>i. metric ! i) s)"

definition last4 :: "'b list \<Rightarrow> 'b list" where
  "last4 s = drop (length s - 4) s"

definition sel_idx_of :: "nat list \<Rightarrow> nat list" where
  "sel_idx_of s = take 4 s @ rev (last4 s)"

definition sel_idx :: "'a::linorder list \<Rightarrow> nat list" where
  "sel_idx metric = sel_idx_of (argsort metric)"

record 'a panel =
  axis_row :: nat
  axis_col :: nat
  spiral :: nat
  title_metric :: 'a

definition visualize :: "'a::linorder list \<Rightarrow> 'a panel list" where
  "visualize metric =
     (let sel = sel_idx metric;
          sel_metric = map (\<lambda>i. metric ! i) sel
      in map (\<lambda>i. \<lparr>axis_row = i mod 4, axis_col = i div 4,
                    spiral = sel ! i, title_metric = sel_metric ! i\<rparr>)
             [0..<length sel])"

section \<open>Default arguments (SpiralsTrainer.build\_model, SpiralsTrainer.default\_args)\<close>

text \<open>
  Python exceptions are values of \<open>py_error\<close>; a function that can raise
  returns \<open>py_error + 'a\<close>, with \<open>Inl\<close> for the exception.  Floating-point
  numbers are idealised as real numbers throughout.

  \<open>args\<close> holds the command-line fields read by the modelled methods:
  \<open>--rec_mults\<close> is \<open>None\<close> or a dictionary from modality to multiplier,
  \<open>--corrupt\<close> a dictionary of corruption options, \<open>--modalities\<close> and
  \<open>--normalize\<close> lists of modality names.

  \<open>default_args\<close> reads \<open>self.model.dims\<close>, a dictionary of the externally
  defined model from modality to dimension; it is the parameter \<open>dims\<close>.
  \<open>build_model\<close> constructs the model from the table
  \<^verbatim>\<open>dims = {'spiral-x': 1, 'spiral-y': 1}\<close>, which is \<open>build_model_dims\<close>.

  With \<^verbatim>\<open>from __future__ import division\<close> every \<open>/\<close> is true division and raises
  \<open>ZeroDivisionError\<close> on a zero divisor.  \<open>corrupt_mult\<close> is computed before the
  dictionary comprehension, which visits the modalities in order, looks up
  \<open>dims[m]\<close> (\<open>KeyError\<close> when absent) and divides by it.  The divisor
  \<open>len(args.modalities)\<close> is evaluated only inside the comprehension, where the
  list is not empty.
\<close>

datatype py_error =
    KeyError string | ZeroDivisionError | ValueError | AttributeError | IndexError
  | RuntimeError

record args =
  modalities :: "string list"
  rec_mults :: "(string \<rightharpoonup> real) option"
  corrupt :: "string \<rightharpoonup> real"
  normalize :: "string list"
  data_dir :: string
  train_subdir :: string
  test_subdir :: string

definition build_model_dims :: "string \<rightharpoonup> nat" where
  "build_model_dims = [''spiral-x'' \<mapsto> 1, ''spiral-y'' \<mapsto> 1]"

definition uniform_frac :: "args \<Rightarrow> real" where
  "uniform_frac a = (case corrupt a ''uniform'' of Some v \<Rightarrow> v | None \<Rightarrow> 0)"

definition corrupt_mult :: "args \<Rightarrow> py_error + real" where
  "corrupt_mult a =
     (if 1 - uniform_frac a = 0 then Inl ZeroDivisionError
      else Inr (1 / (1 - uniform_frac a)))"

fun rec_mults_comp ::
  "(string \<rightharpoonup> nat) \<Rightarrow> nat \<Rightarrow> real \<Rightarrow> string list \<Rightarrow> (string \<rightharpoonup> real) \<Rightarrow>
   py_error + (string \<rightharpoonup> real)" where
  "rec_mults_comp dims n cm [] acc = Inr acc"
| "rec_mults_comp dims n cm (m # ms) acc =
     (case dims m of
        None \<Rightarrow> Inl (KeyError m)
      | Some d \<Rightarrow>
          if d = 0 then Inl ZeroDivisionError
          else rec_mults_comp dims n cm ms (acc(m \<mapsto> (1 / real d) / real n * cm)))"

definition default_args :: "(string \<rightharpoonup> nat) \<Rightarrow> args \<Rightarrow> py_error + args" where
  "default_args dims a =
     (case rec_mults a of
        Some r \<Rightarrow> Inr a
      | None \<Rightarrow>
          (case corrupt_mult a of
             Inl e \<Rightarrow> Inl e
           | Inr cm \<Rightarrow>
               (case rec_mults_comp dims (length (modalities a)) cm (modalities a) Map.empty of
                  Inl e \<Rightarrow> Inl e
                | Inr r \<Rightarrow> Inr (a\<lparr>rec_mults := Some r\<rparr>))))"

definition dims_ok :: "(string \<rightharpoonup> nat) \<Rightarrow> string list \<Rightarrow> bool" where
  "dims_ok dims ms \<longleftrightarrow> list_all (\<lambda>m. case dims m of None \<Rightarrow> False | Some d \<Rightarrow> d \<noteq> 0) ms"

definition example_args :: args where
  "example_args = \<lparr>modalities = [''spiral-x'', ''spiral-y''], rec_mults = None,
     corrupt = [''uniform'' \<mapsto> 1/2], normalize = [],
     data_dir = ''./datasets/spirals'', train_subdir = ''train'', test_subdir = ''test''\<rparr>"

section \<open>Loading and normalising the data (SpiralsTrainer.load\_data)\<close>

text \<open>
  The class \<open>SpiralsDataset\<close> is not part of the modelled file, so its
  constructor and its method \<open>normalize_\<close> are parameters: \<open>SpiralsDataset\<close>
  builds a dataset from the modalities, the directory and the subdirectory,
  and \<open>normalize_self ms ref d\<close> is the dataset \<open>d\<close> after the in-place call
  \<^verbatim>\<open>d.normalize_(modalities=ms, ref_data=ref)\<close> (\<open>ref = None\<close> when the argument is
  left out).  \<open>os.path.abspath\<close> is the parameter \<open>abspath\<close>.  The two datasets
  are the state; every statement of the method updates it in turn, and
  \<open>calls\<close> logs the calls made to the dataset class in the order they happen.
  The reference passed to the normalisation of the test data is the training
  dataset as it is at that moment.  The progress messages printed by the
  method are not modelled.
\<close>

datatype 'd call =
    Construct "string list" string string
  | Normalize_test "string list" 'd
  | Normalize_train "string list"

record 'd datasets =
  train_data :: 'd
  test_data :: 'd
  calls :: "'d call list"

definition load_data ::
  "(string \<Rightarrow> string) \<Rightarrow> (string list \<Rightarrow> string \<Rightarrow> string \<Rightarrow> 'd) \<Rightarrow>
   (string list \<Rightarrow> 'd option \<Rightarrow> 'd \<Rightarrow> 'd) \<Rightarrow> string list \<Rightarrow> args \<Rightarrow> 'd datasets" where
  "load_data abspath SpiralsDataset normalize_self mods a =
     (let dir = abspath (data_dir a);
          s0 = \<lparr>train_data = SpiralsDataset mods dir (train_subdir a),
                test_data = SpiralsDataset mods dir (test_subdir a),
                calls = [Construct mods dir (train_subdir a),
                         Construct mods dir (test_subdir a)]\<rparr>
      in if length (normalize a) > 0 then
           let s1 = s0\<lparr>test_data := normalize_self (normalize a) (Some (train_data s0)) (test_data s0),
                       calls := calls s0 @ [Normalize_test (normalize a) (train_data s0)]\<rparr>;
               s2 = s1\<lparr>train_data := normalize_self (normalize a) None (train_data s1),
                       calls := calls s1 @ [Normalize_train (normalize a)]\<rparr>
           in s2
         else s0)"

definition shift_by_first :: "string list \<Rightarrow> int list option \<Rightarrow> int list \<Rightarrow> int list" where
  "shift_by_first ms ref self =
     map (\<lambda>x. x - hd (case ref of Some r \<Rightarrow> r | None \<Rightarrow> self)) self"

definition example_dataset :: "string list \<Rightarrow> string \<Rightarrow> string \<Rightarrow> int list" where
  "example_dataset ms dir subdir = (if subdir = ''train'' then [10, 20] else [30])"

section \<open>Drawing one spiral (SpiralsTrainer.plot\_spiral)\<close>

text \<open>
  The axis is modelled by the list of what has been drawn on it since the
  last \<open>cla()\<close>, in drawing order.  Arrays are lists of reals; the observations
  may hold NaN, written \<open>None\<close>.  \<open>pred\<close> is the pair of the predicted \<open>x\<close> and \<open>y\<close>
  means and \<open>rng\<close> the pair of the second columns of the predictions, which
  the method scales by 1.96.  \<open>EllipseCollection\<close> stores the arrays it is
  given; ellipse \<open>i\<close> of the collection has width \<open>widths[i]\<close>, height
  \<open>heights[i]\<close> and centre \<open>offsets[i]\<close>.  \<open>np.column_stack\<close> and \<open>axis.plot\<close>
  raise \<open>ValueError\<close> on arrays of different lengths, and so does the
  elementwise comparison of the two NaN masks.
\<close>

type_synonym array = "real list"
type_synonym nan_array = "real option list"

record ellipse_collection =
  widths :: array
  heights :: array
  angles :: array
  units :: string
  facecolors :: "string list"
  alpha :: real
  offsets :: "(real \<times> real) list"

datatype artist =
    Cla
  | Add_collection ellipse_collection
  | Plot nan_array nan_array string
  | Set_xlim real real
  | Set_ylim real real

definition column_stack :: "array \<times> array \<Rightarrow> py_error + (real \<times> real) list" where
  "column_stack p =
     (if length (fst p) = length (snd p) then Inr (zip (fst p) (snd p)) else Inl ValueError)"

definition axis_plot :: "nan_array \<Rightarrow> nan_array \<Rightarrow> string \<Rightarrow> py_error + artist" where
  "axis_plot xs ys fmt =
     (if length xs = length ys then Inr (Plot xs ys fmt) else Inl ValueError)"

definition isnan_differs :: "nan_array \<Rightarrow> nan_array \<Rightarrow> py_error + bool" where
  "isnan_differs xs ys =
     (if length xs = length ys
      then Inr (list_ex (\<lambda>(x, y). (x = None) \<noteq> (y = None)) (zip xs ys))
      else Inl ValueError)"

fun add_artist :: "py_error + artist list \<Rightarrow> py_error + artist \<Rightarrow> py_error + artist list" where
  "add_artist (Inl e) _ = Inl e"
| "add_artist (Inr axis) (Inl e) = Inl e"
| "add_artist (Inr axis) (Inr a) = Inr (axis @ [a])"

definition confidence_ellipses :: "array \<times> array \<Rightarrow> (real \<times> real) list \<Rightarrow> ellipse_collection" where
  "confidence_ellipses rng offs =
     \<lparr>widths = map (\<lambda>v. 1.96 * v) (fst rng),
      heights = map (\<lambda>v. 1.96 * v) (snd rng),
      angles = [0], units = ''x'', facecolors = [''c''], alpha = 0.25,
      offsets = offs\<rparr>"

definition plot_spiral ::
  "array \<times> array \<Rightarrow> array \<times> array \<Rightarrow> nan_array \<times> nan_array \<Rightarrow> array \<times> array \<Rightarrow>
   array \<times> array \<Rightarrow> py_error + artist list" where
  "plot_spiral true data obsv pred rng =
     (let axis = Inr [Cla];
          axis = add_artist axis
            (case column_stack pred of
               Inl e \<Rightarrow> Inl e
             | Inr offs \<Rightarrow>
                 Inr (Add_collection (confidence_ellipses rng offs)));
          axis = add_artist axis (axis_plot (map Some (fst true)) (map Some (snd true)) ''b-'')
      in case axis of
           Inl e \<Rightarrow> Inl e
         | Inr _ \<Rightarrow>
             (case isnan_differs (fst obsv) (snd obsv) of
                Inl e \<Rightarrow> Inl e
              | Inr differs \<Rightarrow>
                  (let axis =
                         (if differs then
                            add_artist
                              (add_artist axis (axis_plot (fst obsv) (map Some (snd data)) ''<''))
                              (axis_plot (map Some (fst data)) (snd obsv) ''v'')
                          else axis);
                       axis = add_artist axis (axis_plot (fst obsv) (snd obsv) ''bo'');
                       axis = add_artist axis
                         (axis_plot (map Some (fst pred)) (map Some (snd pred)) ''-'');
                       axis = add_artist axis (Inr (Set_xlim (- 4) 4));
                       axis = add_artist axis (Inr (Set_ylim (- 4) 4))
                   in axis)))"

fun ellipses :: "artist list \<Rightarrow> ellipse_collection list" where
  "ellipses [] = []"
| "ellipses (Add_collection ec # axis) = ec # ellipses axis"
| "ellipses (_ # axis) = ellipses axis"

section \<open>Summarising the metrics (SpiralsTrainer.summarize\_metrics)\<close>

text \<open>
  \<open>metrics\<close> is a dictionary whose values are either lists of numbers (one
  per sequence) or single numbers (sums over the dataset).  It is modelled by
  the list of its items in iteration order, the keys being distinct; the test
  \<^verbatim>\<open>type(val) is list\<close> is the constructor of the value.  \<open>summary\<close> is a
  dictionary from key to number.  \<open>np.mean\<close> and \<open>np.std\<close> are the mean and the
  standard deviation with divisor \<open>N\<close> (\<open>ddof = 0\<close>,
  \<^verbatim>\<open>sqrt(mean(abs(x - x.mean())**2))\<close>); both give NaN on an empty list.  A
  floating-point result is a real number, NaN or an infinity.
  Single numbers are modelled as Python numbers, for which the division by
  \<open>n_timesteps = 0\<close> raises \<open>ZeroDivisionError\<close>.

  After the loop the method formats \<open>summary['kld_loss']\<close>,
  \<open>summary['rec_loss']\<close>, \<open>summary['mse']\<close> and \<open>summary['mse_std']\<close> for
  printing, in this order; a missing key raises \<open>KeyError\<close> and nothing is
  returned.  The printed text itself is not modelled.  \<open>writes\<close> lists the keys
  of \<open>summary\<close> that one item of \<open>metrics\<close> assigns.
\<close>

datatype metric_value = Metric_list "real list" | Metric_scalar real

datatype np_float = Finite real | NaN | Pos_inf | Neg_inf

type_synonym metrics = "(string \<times> metric_value) list"
type_synonym summary = "string \<rightharpoonup> np_float"

definition np_mean :: "real list \<Rightarrow> np_float" where
  "np_mean val = (if val = [] then NaN else Finite (sum_list val / real (length val)))"

definition np_std :: "real list \<Rightarrow> np_float" where
  "np_std val =
     (if val = [] then NaN
      else let mean = sum_list val / real (length val)
           in Finite (sqrt (sum_list (map (\<lambda>x. \<bar>x - mean\<bar> ^ 2) val) / real (length val))))"

fun summarize_loop :: "int \<Rightarrow> metrics \<Rightarrow> summary \<Rightarrow> py_error + summary" where
  "summarize_loop n_timesteps [] summary = Inr summary"
| "summarize_loop n_timesteps ((key, Metric_list val) # rest) summary =
     summarize_loop n_timesteps rest
       (summary(key \<mapsto> np_mean val, key @ ''_std'' \<mapsto> np_std val))"
| "summarize_loop n_timesteps ((key, Metric_scalar val) # rest) summary =
     (if n_timesteps = 0 then Inl ZeroDivisionError
      else summarize_loop n_timesteps rest
             (summary(key \<mapsto> Finite (val / real_of_int n_timesteps))))"

fun format_args :: "summary \<Rightarrow> string list \<Rightarrow> py_error + np_float list" where
  "format_args summary [] = Inr []"
| "format_args summary (key # keys) =
     (case summary key of
        None \<Rightarrow> Inl (KeyError key)
      | Some v \<Rightarrow> (case format_args summary keys of Inl e \<Rightarrow> Inl e | Inr vs \<Rightarrow> Inr (v # vs)))"

definition summarize_metrics :: "metrics \<Rightarrow> int \<Rightarrow> py_error + summary" where
  "summarize_metrics metrics n_timesteps =
     (case summarize_loop n_timesteps metrics Map.empty of
        Inl e \<Rightarrow> Inl e
      | Inr summary \<Rightarrow>
          (case format_args summary [''kld_loss'', ''rec_loss'', ''mse'', ''mse_std''] of
             Inl e \<Rightarrow> Inl e
           | Inr printed \<Rightarrow> Inr summary))"

fun is_list :: "metric_value \<Rightarrow> bool" where
  "is_list (Metric_list val) = True"
| "is_list (Metric_scalar val) = False"

definition std_key_of_list :: "metrics \<Rightarrow> string \<Rightarrow> bool" where
  "std_key_of_list metrics key \<longleftrightarrow>
     list_ex (\<lambda>(k, v). is_list v \<and> k @ ''_std'' = key) metrics"

definition example_metrics :: metrics where
  "example_metrics = [(''kld_loss'', Metric_scalar 6), (''rec_loss'', Metric_scalar 9),
     (''mse'', Metric_list [1, 3])]"

definition clash_metrics :: metrics where
  "clash_metrics = [(''kld_loss'', Metric_scalar 6), (''rec_loss'', Metric_scalar 9),
     (''mse'', Metric_list [1, 3]), (''mse_std'', Metric_list [5, 5])]"

definition clash_metrics_scalar :: metrics where
  "clash_metrics_scalar = [(''kld_loss'', Metric_scalar 6), (''rec_loss'', Metric_scalar 9),
     (''mse_std'', Metric_scalar 6), (''mse'', Metric_list [1, 3])]"

fun writes :: "string \<times> metric_value \<Rightarrow> string list" where
  "writes (key, Metric_list val) = [key, key @ ''_std'']"
| "writes (key, Metric_scalar val) = [key]"

section \<open>Metrics of one batch (SpiralsTrainer.compute\_metrics)\<close>

text \<open>
  A tensor is its shape together with its entries as a function of the
  indices; entries outside the shape are never read.  The tensors of a batch
  are three-dimensional, time by sequence by feature, so
  \<^verbatim>\<open>range(2, mse.dim())\<close> is the feature dimension alone.  \<open>recon\<close> is the
  dictionary from modality to the pair of predicted mean and spread, as the
  list of its items in iteration order, and \<open>recon[m][0]\<close> is the mean;
  \<open>targets\<close> is a dictionary from modality to tensor.  The mask (\<open>msk\<close> below,
  since \<open>mask\<close> is taken) is a byte tensor of zeros and ones, modelled with
  Boolean entries, so that \<open>1 - mask\<close> is its negation and indexing with it
  selects the entries where the mask is off.  The losses computed by the
  external model are the parameters \<open>model_kld_loss\<close> and \<open>model_rec_loss\<close>.

  An elementwise operation on two tensors of different shapes returns
  \<open>RuntimeError\<close>; the broadcasting of a dimension of size one is not
  modelled.  The built-in \<open>sum\<close> starts from the integer 0, to which the first
  tensor is added unchanged; of an empty list it returns that integer, on
  which \<open>mse.dim()\<close> raises \<open>AttributeError\<close>.  \<open>lengths\<close> is a list of integers,
  always converted to a float tensor (\<open>type(lengths)\<close> is never the function
  \<open>torch.tensor\<close>); a tensor division by zero gives an infinity or NaN and
  does not raise.  Indexing with the list \<open>order\<close> follows Python: a negative
  index counts from the end, an index out of range raises \<open>IndexError\<close>.

  \<open>step_error\<close> and \<open>mse_spec\<close> are not taken from the code: they write down the
  value that the claim describes, to be compared with \<open>compute_metrics\<close>.
\<close>

record 'a tensor3 =
  dim0 :: nat
  dim1 :: nat
  dim2 :: nat
  at3 :: "nat \<Rightarrow> nat \<Rightarrow> nat \<Rightarrow> 'a"

record 'a tensor2 =
  rows :: nat
  cols :: nat
  at2 :: "nat \<Rightarrow> nat \<Rightarrow> 'a"

record 'a tensor1 =
  len :: nat
  at1 :: "nat \<Rightarrow> 'a"

type_synonym recon = "(string \<times> real tensor3 \<times> real tensor3) list"
type_synonym targets = "string \<rightharpoonup> real tensor3"

record batch_metrics =
  kld_loss :: real
  rec_loss :: real
  mse :: "np_float list"

definition same_shape :: "'a tensor3 \<Rightarrow> 'b tensor3 \<Rightarrow> bool" where
  "same_shape x y \<longleftrightarrow> dim0 x = dim0 y \<and> dim1 x = dim1 y \<and> dim2 x = dim2 y"

definition t_sub :: "real tensor3 \<Rightarrow> real tensor3 \<Rightarrow> py_error + real tensor3" where
  "t_sub x y =
     (if same_shape x y
      then Inr \<lparr>dim0 = dim0 x, dim1 = dim1 x, dim2 = dim2 x,
                at3 = (\<lambda>t b d. at3 x t b d - at3 y t b d)\<rparr>
      else Inl RuntimeError)"

definition t_add :: "real tensor3 \<Rightarrow> real tensor3 \<Rightarrow> py_error + real tensor3" where
  "t_add x y =
     (if same_shape x y
      then Inr \<lparr>dim0 = dim0 x, dim1 = dim1 x, dim2 = dim2 x,
                at3 = (\<lambda>t b d. at3 x t b d + at3 y t b d)\<rparr>
      else Inl RuntimeError)"

definition pow2 :: "real tensor3 \<Rightarrow> real tensor3" where
  "pow2 x = \<lparr>dim0 = dim0 x, dim1 = dim1 x, dim2 = dim2 x, at3 = (\<lambda>t b d. (at3 x t b d)\<^sup>2)\<rparr>"

fun squared_errors :: "recon \<Rightarrow> targets \<Rightarrow> py_error + real tensor3 list" where
  "squared_errors [] targets = Inr []"
| "squared_errors ((m, mean, std) # rest) targets =
     (case targets m of
        None \<Rightarrow> Inl (KeyError m)
      | Some target \<Rightarrow>
          (case t_sub mean target of
             Inl e \<Rightarrow> Inl e
           | Inr diff \<Rightarrow>
               (case squared_errors rest targets of
                  Inl e \<Rightarrow> Inl e
                | Inr sqs \<Rightarrow> Inr (pow2 diff # sqs))))"

fun sum_from :: "real tensor3 \<Rightarrow> real tensor3 list \<Rightarrow> py_error + real tensor3" where
  "sum_from acc [] = Inr acc"
| "sum_from acc (x # xs) =
     (case t_add acc x of Inl e \<Rightarrow> Inl e | Inr acc' \<Rightarrow> sum_from acc' xs)"

fun py_sum :: "real tensor3 list \<Rightarrow> py_error + real tensor3 option" where
  "py_sum [] = Inr None"
| "py_sum (x # xs) = (case sum_from x xs of Inl e \<Rightarrow> Inl e | Inr s \<Rightarrow> Inr (Some s))"

definition sum_feature_dims :: "real tensor3 \<Rightarrow> real tensor2" where
  "sum_feature_dims x =
     \<lparr>rows = dim0 x, cols = dim1 x,
      at2 = (\<lambda>t b. sum_list (map (\<lambda>d. at3 x t b d) [0..<dim2 x]))\<rparr>"

definition squeeze_last :: "bool tensor3 \<Rightarrow> py_error + bool tensor2" where
  "squeeze_last msk =
     (if dim2 msk = 1
      then Inr \<lparr>rows = dim0 msk, cols = dim1 msk, at2 = (\<lambda>t b. at3 msk t b 0)\<rparr>
      else Inl IndexError)"

definition zero_where_not :: "real tensor2 \<Rightarrow> bool tensor2 \<Rightarrow> py_error + real tensor2" where
  "zero_where_not val m =
     (if rows m = rows val \<and> cols m = cols val
      then Inr \<lparr>rows = rows val, cols = cols val,
                at2 = (\<lambda>t b. if \<not> at2 m t b then 0 else at2 val t b)\<rparr>
      else Inl IndexError)"

definition sum_dim0 :: "real tensor2 \<Rightarrow> real tensor1" where
  "sum_dim0 val =
     \<lparr>len = cols val, at1 = (\<lambda>b. sum_list (map (\<lambda>t. at2 val t b) [0..<rows val]))\<rparr>"

definition float_div :: "real \<Rightarrow> real \<Rightarrow> np_float" where
  "float_div x y =
     (if y \<noteq> 0 then Finite (x / y)
      else if x = 0 then NaN else if 0 < x then Pos_inf else Neg_inf)"

definition div_lengths :: "real tensor1 \<Rightarrow> int list \<Rightarrow> py_error + np_float tensor1" where
  "div_lengths val lengths =
     (if length lengths = len val
      then Inr \<lparr>len = len val,
                at1 = (\<lambda>b. float_div (at1 val b) (real_of_int (lengths ! b)))\<rparr>
      else Inl RuntimeError)"

definition time_avg ::
  "bool tensor3 \<Rightarrow> int list \<Rightarrow> real tensor2 \<Rightarrow> py_error + np_float tensor1" where
  "time_avg msk lengths val =
     (case squeeze_last msk of
        Inl e \<Rightarrow> Inl e
      | Inr m \<Rightarrow>
          (case zero_where_not val m of
             Inl e \<Rightarrow> Inl e
           | Inr val' \<Rightarrow> div_lengths (sum_dim0 val') lengths))"

definition py_index :: "nat \<Rightarrow> int \<Rightarrow> py_error + nat" where
  "py_index n i =
     (let j = (if i < 0 then int n + i else i)
      in if 0 \<le> j \<and> j < int n then Inr (nat j) else Inl IndexError)"

fun index_list :: "'a tensor1 \<Rightarrow> int list \<Rightarrow> py_error + 'a list" where
  "index_list val [] = Inr []"
| "index_list val (i # order) =
     (case py_index (len val) i of
        Inl e \<Rightarrow> Inl e
      | Inr j \<Rightarrow>
          (case index_list val order of
             Inl e \<Rightarrow> Inl e
           | Inr vs \<Rightarrow> Inr (at1 val j # vs)))"

definition compute_metrics ::
  "real \<Rightarrow> real \<Rightarrow> recon \<Rightarrow> targets \<Rightarrow> bool tensor3 \<Rightarrow> int list \<Rightarrow> int list \<Rightarrow>
   py_error + batch_metrics" where
  "compute_metrics model_kld_loss model_rec_loss recon targets msk lengths order =
     (case squared_errors recon targets of
        Inl e \<Rightarrow> Inl e
      | Inr sqs \<Rightarrow>
          (case py_sum sqs of
             Inl e \<Rightarrow> Inl e
           | Inr None \<Rightarrow> Inl AttributeError
           | Inr (Some mse3) \<Rightarrow>
               (case time_avg msk lengths (sum_feature_dims mse3) of
                  Inl e \<Rightarrow> Inl e
                | Inr avg \<Rightarrow>
                    (case index_list avg order of
                       Inl e \<Rightarrow> Inl e
                     | Inr l \<Rightarrow>
                         Inr \<lparr>kld_loss = model_kld_loss, rec_loss = model_rec_loss,
                              mse = l\<rparr>))))"

definition of_lists3 :: "'a \<Rightarrow> 'a list list list \<Rightarrow> 'a tensor3" where
  "of_lists3 z x =
     \<lparr>dim0 = length x, dim1 = length (hd x), dim2 = length (hd (hd x)),
      at3 = (\<lambda>t b d. if t < length x \<and> b < length (x ! t) \<and> d < length (x ! t ! b)
                       then x ! t ! b ! d else z)\<rparr>"

definition example_recon :: recon where
  "example_recon =
     [(''spiral-x'', of_lists3 0 [[[1], [0]], [[2], [5]], [[9], [1]]], of_lists3 0 [[[1], [1]], [[1], [1]], [[1], [1]]]),
      (''spiral-y'', of_lists3 0 [[[0], [2]], [[1], [1]], [[9], [3]]], of_lists3 0 [[[1], [1]], [[1], [1]], [[1], [1]]])]"

definition example_targets :: targets where
  "example_targets =
     [''spiral-x'' \<mapsto> of_lists3 0 [[[0], [0]], [[0], [2]], [[0], [0]]],
      ''spiral-y'' \<mapsto> of_lists3 0 [[[2], [0]], [[0], [1]], [[0], [0]]]]"

definition example_mask :: "bool tensor3" where
  "example_mask = of_lists3 False [[[True], [True]], [[True], [True]], [[False], [True]]]"

definition step_error :: "recon \<Rightarrow> targets \<Rightarrow> bool tensor3 \<Rightarrow> nat \<Rightarrow> nat \<Rightarrow> real" where
  "step_error recon targets msk t b =
     (if at3 msk t b 0
      then (\<Sum>(m, mean, std)\<leftarrow>recon.
              \<Sum>d\<leftarrow>[0..<dim2 mean]. (at3 mean t b d - at3 (the (targets m)) t b d)\<^sup>2)
      else 0)"

definition mse_spec :: "recon \<Rightarrow> targets \<Rightarrow> bool tensor3 \<Rightarrow> int list \<Rightarrow> nat \<Rightarrow> np_float" where
  "mse_spec recon targets msk lengths b =
     float_div (\<Sum>t\<leftarrow>[0..<dim0 msk]. step_error recon targets msk t b)
               (real_of_int (lengths ! b))"

definition has_shape :: "nat \<Rightarrow> nat \<Rightarrow> nat \<Rightarrow> 'a tensor3 \<Rightarrow> bool" where
  "has_shape T B D x \<longleftrightarrow> dim0 x = T \<and> dim1 x = B \<and> dim2 x = D"

definition batch_ok ::
  "nat \<Rightarrow> nat \<Rightarrow> nat \<Rightarrow> recon \<Rightarrow> targets \<Rightarrow> bool tensor3 \<Rightarrow> int list \<Rightarrow> bool" where
  "batch_ok T B D recon targets msk lengths \<longleftrightarrow>
     recon \<noteq> [] \<and>
     list_all (\<lambda>(m, mean, std). has_shape T B D mean \<and>
        (case targets m of None \<Rightarrow> False | Some target \<Rightarrow> has_shape T B D target)) recon \<and>
     has_shape T B 1 msk \<and> length lengths = B"

definition wrap :: "nat \<Rightarrow> int \<Rightarrow> nat" where
  "wrap n i = nat (if i < 0 then int n + i else i)"

definition order_ok :: "nat \<Rightarrow> int list \<Rightarrow> bool" where
  "order_ok n order \<longleftrightarrow> list_all (\<lambda>i. - int n \<le> i \<and> i < int n) order"

section \<open>Properties of the token similarity script\<close>

lemma length_inner_loop: "length (inner_loop sim t ts) = length ts"
  by (induction ts) simp_all

lemma nth_inner_loop:
  "j < length ts \<Longrightarrow> inner_loop sim t ts ! j = (t, ts ! j, sim t (ts ! j))"
proof (induction ts arbitrary: j)
  case Nil
  then show ?case by simp
next
  case (Cons a ts)
  then show ?case by (cases j) simp_all
qed

lemma length_outer_loop:
  "length (outer_loop sim ts us) = length us * length ts"
  by (induction us) (simp_all add: length_inner_loop)

lemma nth_outer_loop:
  "i < length us \<Longrightarrow> j < length ts \<Longrightarrow>
   outer_loop sim ts us ! (i * length ts + j) = (us ! i, ts ! j, sim (us ! i) (ts ! j))"
proof (induction us arbitrary: i)
  case Nil
  then show ?case by simp
next
  case (Cons u us)
  show ?case
  proof (cases i)
    case 0
    with Cons.prems show ?thesis
      by (simp add: nth_append length_inner_loop nth_inner_loop)
  next
    case (Suc k)
    with Cons.prems have k: "k < length us" by simp
    have "\<not> (length ts + k * length ts + j < length ts)"
      using Cons.prems(2) by simp
    moreover have "length ts + k * length ts + j - length ts = k * length ts + j"
      by simp
    ultimately show ?thesis
      using Cons.IH [OF k Cons.prems(2)] Suc
      by (simp add: nth_append length_inner_loop)
  qed
qed

text \<open>
  C7.  For a text of \<open>n\<close> tokens the script prints \<open>n * n\<close> lines, one for every
  ordered pair of tokens (a token is also paired with itself); the line for
  the pair \<open>(i, j)\<close> is the \<open>(i * n + j)\<close>-th one and shows the two tokens and
  their similarity.
\<close>

theorem test_spacy_all_ordered_pairs:
  "length (test_spacy similarity tokens) = length tokens * length tokens \<and>
   (\<forall>i < length tokens. \<forall>j < length tokens.
      test_spacy similarity tokens ! (i * length tokens + j) =
        (tokens ! i, tokens ! j, similarity (tokens ! i) (tokens ! j)))"
  by (simp add: test_spacy_def length_outer_loop nth_outer_loop)

theorem test_spacy_all_ordered_pairs_witness:
  "length (test_spacy (\<lambda>a b. a = b) [''dog'', ''cat'']) = 4 \<and>
   test_spacy (\<lambda>a b. a = b) [''dog'', ''cat''] ! 1 = (''dog'', ''cat'', False) \<and>
   test_spacy (\<lambda>a b. a = b) [''dog'', ''cat''] ! 3 = (''cat'', ''cat'', True)"
proof -
  let ?ts = "[''dog'', ''cat'']"
  note t = test_spacy_all_ordered_pairs [of "\<lambda>a b. a = b" ?ts]
  note q = t [THEN conjunct2, rule_format]
  from t have l: "length (test_spacy (\<lambda>a b. a = b) ?ts) = 4" by simp
  from q [of 0 1] have a: "test_spacy (\<lambda>a b. a = b) ?ts ! 1 = (''dog'', ''cat'', False)"
    by simp
  from q [of 1 1] have b: "test_spacy (\<lambda>a b. a = b) ?ts ! 3 = (''cat'', ''cat'', True)"
    by (simp add: numeral_3_eq_3)
  from l a b show ?thesis by simp
qed

section \<open>Properties of the selection in visualize\<close>

lemma is_argsort_argsort: "is_argsort metric (argsort metric)"
  unfolding is_argsort_def argsort_def
  apply (intro conjI)
   apply (rule sorted_distinct_set_unique)
       apply simp_all
  done

lemma is_argsort_props:
  assumes "is_argsort metric s"
  shows "length s = length metric" and "distinct s" and "set s = {..<length metric}"
    and "sorted (map (\<lambda>i. metric ! i) s)"
proof -
  from assms have e: "sort s = [0..<length metric]" and so: "sorted (map (\<lambda>i. metric ! i) s)"
    by (simp_all add: is_argsort_def)
  from e have "length (sort s) = length [0..<length metric]" by simp
  then show "length s = length metric" by simp
  from e have "distinct (sort s)" by simp
  then show "distinct s" by simp
  from e have "set (sort s) = set [0..<length metric]" by simp
  then show "set s = {..<length metric}" by (simp add: atLeast0LessThan)
  from so show "sorted (map (\<lambda>i. metric ! i) s)" .
qed


lemma sel_idx_of_length:
  assumes "4 \<le> length s"
  shows "length (sel_idx_of s) = 8" and "take 4 (sel_idx_of s) = take 4 s"
    and "drop 4 (sel_idx_of s) = rev (last4 s)"
  using assms by (simp_all add: sel_idx_of_def last4_def min_def)

lemma bottom_group_smallest:
  assumes a: "is_argsort metric s"
    and j: "j \<in> set (take k s)" and i: "i < length metric" "i \<notin> set (take k s)"
  shows "metric ! j \<le> metric ! i"
proof -
  from a have "set s = {..<length metric}" by (rule is_argsort_props)
  moreover have "set s = set (take k s) \<union> set (drop k s)"
    by (metis append_take_drop_id set_append)
  ultimately have d: "i \<in> set (drop k s)" using i by blast
  from a have "sorted (map (\<lambda>i. metric ! i) (take k s @ drop k s))"
    by (simp add: is_argsort_props)
  then have "\<forall>x\<in>set (take k s). \<forall>y\<in>set (drop k s). metric ! x \<le> metric ! y"
    unfolding map_append sorted_append by simp
  with j d show ?thesis by blast
qed

lemma top_group_largest:
  assumes a: "is_argsort metric s"
    and j: "j \<in> set (drop k s)" and i: "i < length metric" "i \<notin> set (drop k s)"
  shows "metric ! i \<le> metric ! j"
proof -
  from a have "set s = {..<length metric}" by (rule is_argsort_props)
  moreover have "set s = set (take k s) \<union> set (drop k s)"
    by (metis append_take_drop_id set_append)
  ultimately have d: "i \<in> set (take k s)" using i by blast
  from a have "sorted (map (\<lambda>i. metric ! i) (take k s @ drop k s))"
    by (simp add: is_argsort_props)
  then have "\<forall>x\<in>set (take k s). \<forall>y\<in>set (drop k s). metric ! x \<le> metric ! y"
    unfolding map_append sorted_append by simp
  with j d show ?thesis by blast
qed

lemma sel_idx_of_extremes:
  assumes a: "is_argsort metric s" and n: "8 \<le> length metric"
  shows "length (sel_idx_of s) = 8"
    and "distinct (sel_idx_of s)"
    and "set (sel_idx_of s) \<subseteq> {..<length metric}"
    and "sorted (map (\<lambda>i. metric ! i) (take 4 (sel_idx_of s)))"
    and "\<forall>j\<in>set (take 4 (sel_idx_of s)). \<forall>i<length metric.
           i \<notin> set (take 4 (sel_idx_of s)) \<longrightarrow> metric ! j \<le> metric ! i"
    and "sorted (rev (map (\<lambda>i. metric ! i) (drop 4 (sel_idx_of s))))"
    and "\<forall>j\<in>set (drop 4 (sel_idx_of s)). \<forall>i<length metric.
           i \<notin> set (drop 4 (sel_idx_of s)) \<longrightarrow> metric ! i \<le> metric ! j"
proof -
  note p = is_argsort_props [OF a]
  from n p(1) have l4: "4 \<le> length s" and l8: "8 \<le> length s" by simp_all
  note e = sel_idx_of_length [OF l4]
  show "length (sel_idx_of s) = 8" by (rule e)
  have "set (take 4 s) \<inter> set (drop (length s - 4) s) = {}"
    using p(2) l8 by (intro set_take_disj_set_drop_if_distinct) simp_all
  then show "distinct (sel_idx_of s)"
    using p(2) by (simp add: sel_idx_of_def last4_def)
  have "set (take 4 s) \<subseteq> set s" and "set (drop (length s - 4) s) \<subseteq> set s"
    by (rule set_take_subset, rule set_drop_subset)
  then show "set (sel_idx_of s) \<subseteq> {..<length metric}"
    unfolding p(3) [symmetric] by (simp add: sel_idx_of_def last4_def)
  have st: "sorted (map (\<lambda>i. metric ! i) (take k s))"
    and sd: "sorted (map (\<lambda>i. metric ! i) (drop k s))" for k
    using p(4) by (simp_all add: sorted_wrt_take sorted_wrt_drop sorted_map)
  from st show "sorted (map (\<lambda>i. metric ! i) (take 4 (sel_idx_of s)))"
    by (simp add: e)
  from sd show "sorted (rev (map (\<lambda>i. metric ! i) (drop 4 (sel_idx_of s))))"
    by (simp add: e last4_def rev_map)
  show "\<forall>j\<in>set (take 4 (sel_idx_of s)). \<forall>i<length metric.
           i \<notin> set (take 4 (sel_idx_of s)) \<longrightarrow> metric ! j \<le> metric ! i"
    unfolding e using bottom_group_smallest [OF a] by blast
  show "\<forall>j\<in>set (drop 4 (sel_idx_of s)). \<forall>i<length metric.
           i \<notin> set (drop 4 (sel_idx_of s)) \<longrightarrow> metric ! i \<le> metric ! j"
    unfolding e last4_def set_rev using top_group_largest [OF a] by blast
qed

lemma visualize_panels:
  "visualize metric =
     map (\<lambda>k. \<lparr>axis_row = k mod 4, axis_col = k div 4, spiral = sel_idx metric ! k,
               title_metric = metric ! (sel_idx metric ! k)\<rparr>)
         [0..<length (sel_idx metric)]"
  by (simp add: visualize_def Let_def)

lemma spiral_visualize: "map spiral (visualize metric) = sel_idx metric"
  by (simp add: visualize_def Let_def comp_def map_nth)

text \<open>
  C2.  For a metric list of at least 8 values, the selected indices are eight
  distinct sequence indices: the first four carry the four smallest values, in
  ascending order of the value; the last four carry the four largest values,
  in descending order; and the eight panels show those sequences in that
  order, filling the first column of axes and then the second.
\<close>

theorem visualize_selects_extremes:
  assumes "8 \<le> length metric"
  shows "length (sel_idx metric) = 8 \<and> distinct (sel_idx metric) \<and>
    set (sel_idx metric) \<subseteq> {..<length metric} \<and>
    sorted (map (\<lambda>i. metric ! i) (take 4 (sel_idx metric))) \<and>
    (\<forall>j\<in>set (take 4 (sel_idx metric)). \<forall>i<length metric.
       i \<notin> set (take 4 (sel_idx metric)) \<longrightarrow> metric ! j \<le> metric ! i) \<and>
    sorted (rev (map (\<lambda>i. metric ! i) (drop 4 (sel_idx metric)))) \<and>
    (\<forall>j\<in>set (drop 4 (sel_idx metric)). \<forall>i<length metric.
       i \<notin> set (drop 4 (sel_idx metric)) \<longrightarrow> metric ! i \<le> metric ! j) \<and>
    map spiral (visualize metric) = sel_idx metric \<and>
    map (\<lambda>p. (axis_row p, axis_col p)) (visualize metric) =
      [(0, 0), (1, 0), (2, 0), (3, 0), (0, 1), (1, 1), (2, 1), (3, 1)]"
proof -
  note x = sel_idx_of_extremes [OF is_argsort_argsort assms, folded sel_idx_def]
  have "[0..<8] = [0, 1, 2, 3, 4, 5, 6, 7::nat]" by (simp add: upt_rec)
  then have "map (\<lambda>p. (axis_row p, axis_col p)) (visualize metric) =
      [(0, 0), (1, 0), (2, 0), (3, 0), (0, 1), (1, 1), (2, 1), (3, 1)]"
    by (simp add: visualize_panels x(1))
  with x spiral_visualize [of metric] show ?thesis by blast
qed


theorem visualize_selects_extremes_witness:
  "8 \<le> length [5, 3, 9, 1, 7, 2, 8, 6, 4 :: real] \<and>
   length (sel_idx [5, 3, 9, 1, 7, 2, 8, 6, 4 :: real]) = 8 \<and>
   distinct (sel_idx [5, 3, 9, 1, 7, 2, 8, 6, 4 :: real]) \<and>
   map spiral (visualize [5, 3, 9, 1, 7, 2, 8, 6, 4 :: real]) = [3, 5, 1, 8, 2, 6, 4, 7]"
proof -
  let ?m = "[5, 3, 9, 1, 7, 2, 8, 6, 4 :: real]"
  have h: "8 \<le> length ?m" by simp
  have v: "sel_idx ?m = [3, 5, 1, 8, 2, 6, 4, 7]"
    by (simp add: sel_idx_def sel_idx_of_def last4_def argsort_def upt_rec)
  from visualize_selects_extremes [OF h] have
    "length (sel_idx ?m) = 8" "distinct (sel_idx ?m)"
    "map spiral (visualize ?m) = sel_idx ?m"
    by blast+
  with h v show ?thesis by simp
qed

lemma overlap_of_groups:
  assumes "4 \<le> length s" "length s < 8"
  shows "s ! (length s - 4) \<in> set (take 4 s) \<inter> set (last4 s)"
proof -
  let ?k = "length s - 4"
  from assms have k: "?k < 4" "?k < length s" by simp_all
  then have "take 4 s ! ?k = s ! ?k" by simp
  moreover from k assms have "?k < length (take 4 s)" by simp
  ultimately have 1: "s ! ?k \<in> set (take 4 s)" by (metis nth_mem)
  from k have "drop ?k s ! 0 = s ! ?k" by simp
  moreover from k have "0 < length (drop ?k s)" by simp
  ultimately have 2: "s ! ?k \<in> set (drop ?k s)" by (metis nth_mem)
  from 1 2 show ?thesis by (simp add: last4_def)
qed

text \<open>
  C10.  For a metric list of at least 4 but fewer than 8 values, eight indices
  are still selected and eight panels drawn, and some sequence index lies both
  in the bottom group and in the top group, so the selection has a duplicate.
\<close>

theorem visualize_short_metric_duplicates:
  assumes "4 \<le> length metric" and "length metric < 8"
  shows "length (sel_idx metric) = 8 \<and>
    length (visualize metric) = 8 \<and>
    map spiral (visualize metric) = sel_idx metric \<and>
    set (take 4 (sel_idx metric)) \<inter> set (drop 4 (sel_idx metric)) \<noteq> {} \<and>
    \<not> distinct (sel_idx metric)"
proof -
  let ?s = "argsort metric"
  have l: "length ?s = length metric" by (simp add: argsort_def)
  with assms have l4: "4 \<le> length ?s" and l8: "length ?s < 8" by simp_all
  note e = sel_idx_of_length [OF l4, folded sel_idx_def]
  from overlap_of_groups [OF l4 l8]
  have ne: "set (take 4 (sel_idx metric)) \<inter> set (drop 4 (sel_idx metric)) \<noteq> {}"
    unfolding e by auto
  have "sel_idx metric = take 4 (sel_idx metric) @ drop 4 (sel_idx metric)" by simp
  then have "distinct (sel_idx metric) \<Longrightarrow>
      set (take 4 (sel_idx metric)) \<inter> set (drop 4 (sel_idx metric)) = {}"
    by (metis distinct_append)
  with ne have nd: "\<not> distinct (sel_idx metric)" by blast
  have "length (visualize metric) = 8" by (simp add: visualize_panels e(1))
  with e(1) ne nd spiral_visualize [of metric] show ?thesis by blast
qed

theorem visualize_short_metric_duplicates_witness:
  "4 \<le> length [5, 3, 9, 1, 7 :: real] \<and> length [5, 3, 9, 1, 7 :: real] < 8 \<and>
   length (visualize [5, 3, 9, 1, 7 :: real]) = 8 \<and>
   map spiral (visualize [5, 3, 9, 1, 7 :: real]) = [3, 1, 0, 4, 2, 4, 0, 1] \<and>
   \<not> distinct (sel_idx [5, 3, 9, 1, 7 :: real])"
proof -
  let ?m = "[5, 3, 9, 1, 7 :: real]"
  have h: "4 \<le> length ?m" "length ?m < 8" by simp_all
  have v: "sel_idx ?m = [3, 1, 0, 4, 2, 4, 0, 1]"
    by (simp add: sel_idx_def sel_idx_of_def last4_def argsort_def upt_rec)
  from visualize_short_metric_duplicates [OF h] have
    "length (visualize ?m) = 8" "map spiral (visualize ?m) = sel_idx ?m"
    "\<not> distinct (sel_idx ?m)"
    by blast+
  with h v show ?thesis by simp
qed

section \<open>Properties of default\_args\<close>

lemma dims_ok_Nil: "dims_ok dims []"
  by (simp add: dims_ok_def)

lemma dims_ok_Cons:
  "dims_ok dims (m # ms) \<longleftrightarrow> (\<exists>d. dims m = Some d \<and> d \<noteq> 0) \<and> dims_ok dims ms"
  by (auto simp: dims_ok_def split: option.splits)

lemma rec_mults_comp_ok:
  assumes "dims_ok dims ms"
  shows "\<exists>r. rec_mults_comp dims n cm ms acc = Inr r \<and> dom r = dom acc \<union> set ms \<and>
           (\<forall>m\<in>set ms. r m = Some ((1 / real (the (dims m))) / real n * cm)) \<and>
           (\<forall>m. m \<notin> set ms \<longrightarrow> r m = acc m)"
  using assms
proof (induction ms arbitrary: acc)
  case Nil
  then show ?case by simp
next
  case (Cons m ms)
  from Cons.prems obtain d where d: "dims m = Some d" "d \<noteq> 0" and ok: "dims_ok dims ms"
    by (auto simp: dims_ok_Cons)
  let ?acc = "acc(m \<mapsto> (1 / real d) / real n * cm)"
  from Cons.IH [OF ok, of ?acc] obtain r where
    r: "rec_mults_comp dims n cm ms ?acc = Inr r" "dom r = dom ?acc \<union> set ms"
       "\<forall>k\<in>set ms. r k = Some ((1 / real (the (dims k))) / real n * cm)"
       "\<forall>k. k \<notin> set ms \<longrightarrow> r k = ?acc k"
    by blast
  have "rec_mults_comp dims n cm (m # ms) acc = Inr r" using d r(1) by simp
  moreover have "dom r = dom acc \<union> set (m # ms)" using r(2) by auto
  moreover have "\<forall>k\<in>set (m # ms). r k = Some ((1 / real (the (dims k))) / real n * cm)"
  proof
    fix k assume k: "k \<in> set (m # ms)"
    show "r k = Some ((1 / real (the (dims k))) / real n * cm)"
    proof (cases "k \<in> set ms")
      case True
      with r(3) show ?thesis by blast
    next
      case False
      with k have "k = m" by simp
      with False r(4) d show ?thesis by simp
    qed
  qed
  moreover have "\<forall>k. k \<notin> set (m # ms) \<longrightarrow> r k = acc k" using r(4) by simp
  ultimately show ?case by blast
qed

lemma rec_mults_comp_returns:
  "rec_mults_comp dims n cm ms acc = Inr r \<Longrightarrow> dims_ok dims ms"
proof (induction ms arbitrary: acc)
  case Nil
  show ?case by (rule dims_ok_Nil)
next
  case (Cons m ms)
  from Cons.prems obtain d where d: "dims m = Some d" "d \<noteq> 0"
    and r: "rec_mults_comp dims n cm ms (acc(m \<mapsto> (1 / real d) / real n * cm)) = Inr r"
    by (auto split: option.splits if_splits)
  from Cons.IH [OF r] d show ?case by (simp add: dims_ok_Cons)
qed

lemma rec_mults_comp_zero_division:
  "rec_mults_comp dims n cm ms acc = Inl ZeroDivisionError \<Longrightarrow> \<exists>m\<in>set ms. dims m = Some 0"
proof (induction ms arbitrary: acc)
  case Nil
  then show ?case by simp
next
  case (Cons m ms)
  then show ?case
    by (auto split: option.splits if_splits)
qed

lemma uniform_frac_get:
  "corrupt a ''uniform'' = Some u \<or> corrupt a ''uniform'' = None \<and> u = 0 \<Longrightarrow>
   uniform_frac a = u"
  by (auto simp: uniform_frac_def)

lemma uniform_frac_one: "uniform_frac a = 1 \<longleftrightarrow> corrupt a ''uniform'' = Some 1"
  by (simp add: uniform_frac_def split: option.splits)

lemma example_args_facts:
  "rec_mults example_args = None" "uniform_frac example_args = 1 / 2"
  "modalities example_args = [''spiral-x'', ''spiral-y'']"
  by (simp_all add: example_args_def uniform_frac_def)

lemma dims_ok_example: "dims_ok build_model_dims (modalities example_args)"
  by (simp add: example_args_facts dims_ok_Cons dims_ok_Nil build_model_dims_def)

text \<open>
  C8.  Let \<open>u\<close> be the entry \<open>uniform\<close> of \<open>corrupt\<close> when the key is present and
  0 when it is absent.  When \<open>rec_mults\<close> is \<open>None\<close>, \<open>u\<close> differs from 1 and every
  modality has a nonzero dimension, \<open>default_args\<close> returns the arguments with
  \<open>rec_mults\<close> set to a dictionary whose keys are the modalities and whose
  value at \<open>m\<close> is \<open>(1 / dims[m]) / len(modalities) * (1 / (1 - u))\<close>; it returns
  in no other case with \<open>rec_mults = None\<close> (it raises when the entry \<open>uniform\<close>
  is 1 or a modality has no or a zero dimension).  When \<open>rec_mults\<close> is not
  \<open>None\<close> the arguments are returned unchanged.
\<close>

theorem default_args_fills_rec_mults:
  "(rec_mults a = None \<and>
    (corrupt a ''uniform'' = Some u \<or> corrupt a ''uniform'' = None \<and> u = 0) \<and>
    u \<noteq> 1 \<and> dims_ok dims (modalities a) \<longrightarrow>
      (\<exists>r. default_args dims a = Inr (a\<lparr>rec_mults := Some r\<rparr>) \<and>
           dom r = set (modalities a) \<and>
           (\<forall>m\<in>set (modalities a).
              r m = Some ((1 / real (the (dims m))) / real (length (modalities a))
                          * (1 / (1 - u)))))) \<and>
   (rec_mults a = None \<and> default_args dims a = Inr a' \<longrightarrow>
      corrupt a ''uniform'' \<noteq> Some 1 \<and> dims_ok dims (modalities a)) \<and>
   (rec_mults a \<noteq> None \<longrightarrow> default_args dims a = Inr a)"
proof (intro conjI impI)
  assume h: "rec_mults a = None \<and>
    (corrupt a ''uniform'' = Some u \<or> corrupt a ''uniform'' = None \<and> u = 0) \<and>
    u \<noteq> 1 \<and> dims_ok dims (modalities a)"
  then have u: "uniform_frac a = u" by (blast intro: uniform_frac_get)
  with h have cm: "corrupt_mult a = Inr (1 / (1 - u))"
    by (simp add: corrupt_mult_def)
  from h rec_mults_comp_ok [of dims "modalities a" "length (modalities a)"
      "1 / (1 - u)" Map.empty]
  obtain r where r: "rec_mults_comp dims (length (modalities a)) (1 / (1 - u))
        (modalities a) Map.empty = Inr r"
      "dom r = set (modalities a)"
      "\<forall>m\<in>set (modalities a). r m = Some ((1 / real (the (dims m)))
          / real (length (modalities a)) * (1 / (1 - u)))"
    by auto
  from h cm r(1) have "default_args dims a = Inr (a\<lparr>rec_mults := Some r\<rparr>)"
    by (simp add: default_args_def)
  with r(2,3) show "\<exists>r. default_args dims a = Inr (a\<lparr>rec_mults := Some r\<rparr>) \<and>
           dom r = set (modalities a) \<and>
           (\<forall>m\<in>set (modalities a).
              r m = Some ((1 / real (the (dims m))) / real (length (modalities a))
                          * (1 / (1 - u))))"
    by blast
next
  assume h: "rec_mults a = None \<and> default_args dims a = Inr a'"
  then have "uniform_frac a \<noteq> 1"
    by (auto simp: default_args_def corrupt_mult_def split: sum.splits if_splits)
  then show "corrupt a ''uniform'' \<noteq> Some 1" by (simp add: uniform_frac_one)
  from h show "dims_ok dims (modalities a)"
    by (auto simp: default_args_def split: sum.splits dest: rec_mults_comp_returns)
next
  assume "rec_mults a \<noteq> None"
  then show "default_args dims a = Inr a"
    by (auto simp: default_args_def)
qed

theorem default_args_fills_rec_mults_witness:
  "rec_mults example_args = None \<and> corrupt example_args ''uniform'' = Some (1 / 2) \<and>
   dims_ok build_model_dims (modalities example_args) \<and>
   (\<exists>r. default_args build_model_dims example_args = Inr (example_args\<lparr>rec_mults := Some r\<rparr>) \<and>
        dom r = {''spiral-x'', ''spiral-y''} \<and>
        r ''spiral-x'' = Some 1 \<and> r ''spiral-y'' = Some 1) \<and>
   corrupt (example_args\<lparr>corrupt := Map.empty\<rparr>) ''uniform'' = None \<and>
   (\<exists>r. default_args build_model_dims (example_args\<lparr>corrupt := Map.empty\<rparr>)
           = Inr (example_args\<lparr>corrupt := Map.empty, rec_mults := Some r\<rparr>) \<and>
        dom r = {''spiral-x'', ''spiral-y''} \<and>
        r ''spiral-x'' = Some (1 / 2) \<and> r ''spiral-y'' = Some (1 / 2)) \<and>
   default_args build_model_dims (example_args\<lparr>rec_mults := Some Map.empty\<rparr>)
     = Inr (example_args\<lparr>rec_mults := Some Map.empty\<rparr>)"
proof -
  let ?b = "example_args\<lparr>corrupt := Map.empty\<rparr>"
  let ?c = "example_args\<lparr>rec_mults := Some Map.empty\<rparr>"
  have p: "corrupt example_args ''uniform'' = Some (1 / 2)"
    by (simp add: example_args_def)
  have q: "corrupt ?b ''uniform'' = None" by simp
  have h: "rec_mults example_args = None \<and>
      (corrupt example_args ''uniform'' = Some (1 / 2) \<or>
       corrupt example_args ''uniform'' = None \<and> (1 / 2 :: real) = 0) \<and>
      (1 / 2 :: real) \<noteq> 1 \<and> dims_ok build_model_dims (modalities example_args)"
    using dims_ok_example p by (simp add: example_args_facts(1))
  have h': "rec_mults ?b = None \<and>
      (corrupt ?b ''uniform'' = Some 0 \<or> corrupt ?b ''uniform'' = None \<and> (0 :: real) = 0) \<and>
      (0 :: real) \<noteq> 1 \<and> dims_ok build_model_dims (modalities ?b)"
    using dims_ok_example by (simp add: example_args_facts(1))
  from default_args_fills_rec_mults [of example_args "1 / 2" build_model_dims,
      THEN conjunct1, rule_format, OF h]
  obtain r where r: "default_args build_model_dims example_args = Inr (example_args\<lparr>rec_mults := Some r\<rparr>)"
    "dom r = set (modalities example_args)"
    "\<forall>m\<in>set (modalities example_args).
        r m = Some ((1 / real (the (build_model_dims m))) / real (length (modalities example_args))
                    * (1 / (1 - 1 / 2)))"
    by blast
  from r(2) have d: "dom r = {''spiral-x'', ''spiral-y''}"
    by (simp add: example_args_facts)
  from r(3) have x: "r ''spiral-x'' = Some 1" and y: "r ''spiral-y'' = Some 1"
    by (simp_all add: example_args_facts build_model_dims_def)
  from default_args_fills_rec_mults [of ?b 0 build_model_dims,
      THEN conjunct1, rule_format, OF h']
  obtain s where s: "default_args build_model_dims ?b = Inr (?b\<lparr>rec_mults := Some s\<rparr>)"
    "dom s = set (modalities ?b)"
    "\<forall>m\<in>set (modalities ?b).
        s m = Some ((1 / real (the (build_model_dims m))) / real (length (modalities ?b))
                    * (1 / (1 - 0)))"
    by blast
  from s(2) have d': "dom s = {''spiral-x'', ''spiral-y''}"
    by (simp add: example_args_facts)
  from s(3) have x': "s ''spiral-x'' = Some (1 / 2)" and y': "s ''spiral-y'' = Some (1 / 2)"
    by (simp_all add: example_args_facts build_model_dims_def)
  have n: "rec_mults ?c \<noteq> None" by simp
  from default_args_fills_rec_mults [of ?c 0 build_model_dims,
      THEN conjunct2, THEN conjunct2, rule_format, OF n]
  have c: "default_args build_model_dims ?c = Inr ?c" .
  from h have 1: "rec_mults example_args = None"
    and 2: "dims_ok build_model_dims (modalities example_args)" by blast+
  have A: "\<exists>r. default_args build_model_dims example_args = Inr (example_args\<lparr>rec_mults := Some r\<rparr>) \<and>
        dom r = {''spiral-x'', ''spiral-y''} \<and>
        r ''spiral-x'' = Some 1 \<and> r ''spiral-y'' = Some 1"
    using r(1) d x y by blast
  have B: "\<exists>r. default_args build_model_dims ?b = Inr (?b\<lparr>rec_mults := Some r\<rparr>) \<and>
        dom r = {''spiral-x'', ''spiral-y''} \<and>
        r ''spiral-x'' = Some (1 / 2) \<and> r ''spiral-y'' = Some (1 / 2)"
    using s(1) d' x' y' by blast
  from 1 p 2 A q B c show ?thesis by blast
qed

lemma build_model_dims_nonzero: "build_model_dims m \<noteq> Some 0"
  by (simp add: build_model_dims_def)

lemma default_args_zero_division:
  assumes "default_args dims a = Inl ZeroDivisionError"
  shows "uniform_frac a = 1 \<or> (\<exists>m\<in>set (modalities a). dims m = Some 0)"
proof (cases "corrupt_mult a")
  case (Inl e)
  then show ?thesis by (simp add: corrupt_mult_def split: if_splits)
next
  case (Inr cm)
  with assms have "rec_mults_comp dims (length (modalities a)) cm (modalities a) Map.empty
      = Inl ZeroDivisionError"
    by (auto simp: default_args_def split: option.splits sum.splits)
  then show ?thesis by (blast dest: rec_mults_comp_zero_division)
qed

text \<open>
  C9.  If the uniform corruption fraction is below 1, then the denominator
  \<open>1 - u\<close> is not zero, \<open>corrupt_mult\<close> is computed without error, and
  \<open>default_args\<close> does not raise \<open>ZeroDivisionError\<close>, with the dimension table
  of \<open>build_model\<close> and with any table that gives no modality the dimension 0.
\<close>

theorem default_args_denominator_nonzero:
  assumes "uniform_frac a < 1"
  shows "1 - uniform_frac a \<noteq> 0 \<and>
     corrupt_mult a = Inr (1 / (1 - uniform_frac a)) \<and>
     default_args build_model_dims a \<noteq> Inl ZeroDivisionError \<and>
     ((\<forall>m\<in>set (modalities a). dims m \<noteq> Some 0) \<longrightarrow>
        default_args dims a \<noteq> Inl ZeroDivisionError)"
proof -
  from assms have u: "uniform_frac a \<noteq> 1" and n: "1 - uniform_frac a \<noteq> 0" by simp_all
  from n have c: "corrupt_mult a = Inr (1 / (1 - uniform_frac a))"
    by (simp add: corrupt_mult_def)
  have g: "default_args d a \<noteq> Inl ZeroDivisionError"
    if "\<forall>m\<in>set (modalities a). d m \<noteq> Some 0" for d
    using default_args_zero_division [of d a] u that by blast
  from g [of build_model_dims] have b: "default_args build_model_dims a \<noteq> Inl ZeroDivisionError"
    by (simp add: build_model_dims_nonzero)
  from n c b g [of dims] show ?thesis by blast
qed

theorem default_args_denominator_nonzero_witness:
  "uniform_frac example_args < 1 \<and>
   corrupt_mult example_args = Inr 2 \<and>
   default_args build_model_dims example_args \<noteq> Inl ZeroDivisionError"
proof -
  have h: "uniform_frac example_args < 1" by (simp add: example_args_facts)
  from default_args_denominator_nonzero [OF h, of build_model_dims]
  have "corrupt_mult example_args = Inr (1 / (1 - uniform_frac example_args))"
    and "default_args build_model_dims example_args \<noteq> Inl ZeroDivisionError"
    by blast+
  with h show ?thesis by (simp add: example_args_facts)
qed

section \<open>Properties of load\_data\<close>

text \<open>
  C6.  When \<open>args.normalize\<close> is not empty, the returned test dataset is the
  loaded test dataset normalised with the loaded, not yet normalised training
  dataset as reference, the returned training dataset is the loaded training
  dataset normalised without reference, and the two normalising calls happen
  in that order.  When \<open>args.normalize\<close> is empty, both datasets are returned as
  loaded and no normalising call is made.
\<close>

theorem load_data_normalizes_test_then_train:
  "(normalize a \<noteq> [] \<longrightarrow>
      train_data (load_data abspath SpiralsDataset normalize_self mods a) =
        normalize_self (normalize a) None (SpiralsDataset mods (abspath (data_dir a)) (train_subdir a)) \<and>
      test_data (load_data abspath SpiralsDataset normalize_self mods a) =
        normalize_self (normalize a)
          (Some (SpiralsDataset mods (abspath (data_dir a)) (train_subdir a)))
          (SpiralsDataset mods (abspath (data_dir a)) (test_subdir a)) \<and>
      drop 2 (calls (load_data abspath SpiralsDataset normalize_self mods a)) =
        [Normalize_test (normalize a) (SpiralsDataset mods (abspath (data_dir a)) (train_subdir a)),
         Normalize_train (normalize a)]) \<and>
   (normalize a = [] \<longrightarrow>
      train_data (load_data abspath SpiralsDataset normalize_self mods a) =
        SpiralsDataset mods (abspath (data_dir a)) (train_subdir a) \<and>
      test_data (load_data abspath SpiralsDataset normalize_self mods a) =
        SpiralsDataset mods (abspath (data_dir a)) (test_subdir a) \<and>
      drop 2 (calls (load_data abspath SpiralsDataset normalize_self mods a)) = [])"
  by (simp add: load_data_def Let_def)

theorem load_data_normalizes_test_then_train_witness:
  "normalize (example_args\<lparr>normalize := [''spiral-x'']\<rparr>) \<noteq> [] \<and>
   train_data (load_data id example_dataset shift_by_first [''spiral-x'', ''spiral-y'']
      (example_args\<lparr>normalize := [''spiral-x'']\<rparr>)) = [0, 10] \<and>
   test_data (load_data id example_dataset shift_by_first [''spiral-x'', ''spiral-y'']
      (example_args\<lparr>normalize := [''spiral-x'']\<rparr>)) = [20] \<and>
   normalize example_args = [] \<and>
   train_data (load_data id example_dataset shift_by_first [''spiral-x'', ''spiral-y'']
      example_args) = [10, 20] \<and>
   test_data (load_data id example_dataset shift_by_first [''spiral-x'', ''spiral-y'']
      example_args) = [30]"
proof -
  let ?a = "example_args\<lparr>normalize := [''spiral-x'']\<rparr>"
  let ?ms = "[''spiral-x'', ''spiral-y'']"
  have h: "normalize ?a \<noteq> []" by simp
  have h': "normalize example_args = []" by (simp add: example_args_def)
  note t = load_data_normalizes_test_then_train [of ?a id example_dataset shift_by_first ?ms,
      THEN conjunct1, rule_format, OF h]
  note t' = load_data_normalizes_test_then_train [of example_args id example_dataset shift_by_first ?ms,
      THEN conjunct2, rule_format, OF h']
  have 1: "train_data (load_data id example_dataset shift_by_first ?ms ?a) = [0, 10]"
    using t by (simp add: example_args_def example_dataset_def shift_by_first_def)
  have 2: "test_data (load_data id example_dataset shift_by_first ?ms ?a) = [20]"
    using t by (simp add: example_args_def example_dataset_def shift_by_first_def)
  have 3: "train_data (load_data id example_dataset shift_by_first ?ms example_args) = [10, 20]"
    using t' by (simp add: example_args_def example_dataset_def)
  have 4: "test_data (load_data id example_dataset shift_by_first ?ms example_args) = [30]"
    using t' by (simp add: example_args_def example_dataset_def)
  from h h' 1 2 3 4 show ?thesis by blast
qed

section \<open>Properties of plot\_spiral\<close>

lemma add_artist_Inr:
  "add_artist ax x = Inr axis \<longleftrightarrow> (\<exists>as a. ax = Inr as \<and> x = Inr a \<and> axis = as @ [a])"
  by (cases ax; cases x) auto

lemma axis_plot_Inr:
  "axis_plot xs ys fmt = Inr a \<longleftrightarrow> length xs = length ys \<and> a = Plot xs ys fmt"
  by (auto simp: axis_plot_def)

lemma plot_spiral_prefix:
  assumes "plot_spiral true data obsv pred rng = Inr axis"
  shows "\<exists>rest. length (fst pred) = length (snd pred) \<and>
     axis = Cla # Add_collection (confidence_ellipses rng (zip (fst pred) (snd pred))) # rest \<and>
     ellipses rest = []"
  using assms
  unfolding plot_spiral_def Let_def column_stack_def
  by (auto simp: add_artist_Inr axis_plot_Inr split: sum.splits if_splits)

lemma plot_spiral_returns:
  assumes "length (fst pred) = length (snd pred)" "length (fst true) = length (snd true)"
    "length (fst obsv) = length (snd obsv)" "length (fst data) = length (fst obsv)"
    "length (snd data) = length (snd obsv)"
  shows "\<exists>axis. plot_spiral true data obsv pred rng = Inr axis"
  using assms
  unfolding plot_spiral_def Let_def column_stack_def isnan_differs_def axis_plot_def
  by simp

text \<open>
  C5.  Whenever \<open>plot_spiral\<close> returns, the axis holds exactly one ellipse
  collection, drawn right after the axis is cleared; it has one centre per
  predicted point, the predicted \<open>(x, y)\<close> mean, every width is 1.96 times the
  corresponding entry of \<open>rng[0]\<close>, every height 1.96 times the corresponding
  entry of \<open>rng[1]\<close>, and the angle is 0.  The method returns when the paired
  arrays have equal lengths.
\<close>

theorem plot_spiral_confidence_ellipses:
  "(length (fst pred) = length (snd pred) \<and> length (fst true) = length (snd true) \<and>
    length (fst obsv) = length (snd obsv) \<and> length (fst data) = length (fst obsv) \<and>
    length (snd data) = length (snd obsv) \<longrightarrow>
      (\<exists>axis. plot_spiral true data obsv pred rng = Inr axis)) \<and>
   (plot_spiral true data obsv pred rng = Inr axis \<longrightarrow>
      (\<exists>ec. ellipses axis = [ec] \<and> axis ! 1 = Add_collection ec \<and>
         length (offsets ec) = length (fst pred) \<and> angles ec = [0] \<and>
         (\<forall>i<length (fst pred). offsets ec ! i = (fst pred ! i, snd pred ! i)) \<and>
         length (widths ec) = length (fst rng) \<and>
         (\<forall>i<length (fst rng). widths ec ! i = 1.96 * fst rng ! i) \<and>
         length (heights ec) = length (snd rng) \<and>
         (\<forall>i<length (snd rng). heights ec ! i = 1.96 * snd rng ! i)))"
proof (intro conjI impI)
  assume "length (fst pred) = length (snd pred) \<and> length (fst true) = length (snd true) \<and>
    length (fst obsv) = length (snd obsv) \<and> length (fst data) = length (fst obsv) \<and>
    length (snd data) = length (snd obsv)"
  then show "\<exists>axis. plot_spiral true data obsv pred rng = Inr axis"
    by (intro plot_spiral_returns) simp_all
next
  assume "plot_spiral true data obsv pred rng = Inr axis"
  from plot_spiral_prefix [OF this] obtain rest where
    l: "length (fst pred) = length (snd pred)" and
    a: "axis = Cla # Add_collection (confidence_ellipses rng (zip (fst pred) (snd pred))) # rest"
    and r: "ellipses rest = []"
    by blast
  let ?ec = "confidence_ellipses rng (zip (fst pred) (snd pred))"
  have 1: "ellipses axis = [?ec]" unfolding a using r by simp
  have 2: "axis ! 1 = Add_collection ?ec" unfolding a by simp
  have 3: "length (offsets ?ec) = length (fst pred)" "angles ?ec = [0]"
    "length (widths ?ec) = length (fst rng)" "length (heights ?ec) = length (snd rng)"
    using l by (simp_all add: confidence_ellipses_def)
  have 4: "\<forall>i<length (fst pred). offsets ?ec ! i = (fst pred ! i, snd pred ! i)"
    using l by (simp add: confidence_ellipses_def)
  have 5: "\<forall>i<length (fst rng). widths ?ec ! i = 1.96 * fst rng ! i"
    "\<forall>i<length (snd rng). heights ?ec ! i = 1.96 * snd rng ! i"
    by (simp_all add: confidence_ellipses_def)
  from 1 2 3 4 5
  show "\<exists>ec. ellipses axis = [ec] \<and> axis ! 1 = Add_collection ec \<and>
         length (offsets ec) = length (fst pred) \<and> angles ec = [0] \<and>
         (\<forall>i<length (fst pred). offsets ec ! i = (fst pred ! i, snd pred ! i)) \<and>
         length (widths ec) = length (fst rng) \<and>
         (\<forall>i<length (fst rng). widths ec ! i = 1.96 * fst rng ! i) \<and>
         length (heights ec) = length (snd rng) \<and>
         (\<forall>i<length (snd rng). heights ec ! i = 1.96 * snd rng ! i)"
    by blast
qed


theorem plot_spiral_confidence_ellipses_witness:
  "\<exists>axis. plot_spiral ([0, 1], [0, 1]) ([0, 1], [0, 1]) ([Some 0, None], [Some 0, Some 1])
       ([1, 2], [3, 4]) ([1 / 2, 1], [2, 3]) = Inr axis \<and>
     (\<exists>ec. ellipses axis = [ec] \<and> offsets ec ! 1 = (2, 4) \<and>
        widths ec ! 1 = 1.96 \<and> heights ec ! 1 = 5.88)"
proof -
  let ?true = "([0, 1], [0, 1]) :: array \<times> array"
  let ?obsv = "([Some 0, None], [Some 0, Some 1]) :: nan_array \<times> nan_array"
  let ?pred = "([1, 2], [3, 4]) :: array \<times> array"
  let ?rng = "([1 / 2, 1], [2, 3]) :: array \<times> array"
  have h: "length (fst ?pred) = length (snd ?pred) \<and> length (fst ?true) = length (snd ?true) \<and>
    length (fst ?obsv) = length (snd ?obsv) \<and> length (fst ?true) = length (fst ?obsv) \<and>
    length (snd ?true) = length (snd ?obsv)"
    by simp
  from plot_spiral_confidence_ellipses [of ?pred ?true ?obsv ?true ?rng, THEN conjunct1,
      rule_format, OF h]
  obtain axis where a: "plot_spiral ?true ?true ?obsv ?pred ?rng = Inr axis" by blast
  from plot_spiral_confidence_ellipses [of ?pred ?true ?obsv ?true ?rng axis, THEN conjunct2,
      rule_format, OF a]
  obtain ec where ec: "ellipses axis = [ec]"
    "\<forall>i<length (fst ?pred). offsets ec ! i = (fst ?pred ! i, snd ?pred ! i)"
    "\<forall>i<length (fst ?rng). widths ec ! i = 1.96 * fst ?rng ! i"
    "\<forall>i<length (snd ?rng). heights ec ! i = 1.96 * snd ?rng ! i"
    by blast
  from ec(2) have "offsets ec ! 1 = (2, 4)" by simp
  moreover from ec(3) have "widths ec ! 1 = 1.96" by simp
  moreover from ec(4) have "heights ec ! 1 = 5.88" by simp
  ultimately show ?thesis using a ec(1) by blast
qed

section \<open>Properties of summarize\_metrics\<close>

lemma np_std_example: "np_std [1, 3] = Finite 1"
  by (simp add: np_std_def)

lemma np_mean_example: "np_mean [1, 3] = Finite 2" "np_mean [5, 5] = Finite 5"
  by (simp_all add: np_mean_def)

lemma np_std_population:
  "val \<noteq> [] \<Longrightarrow> np_mean val = Finite (sum_list val / real (length val)) \<and>
     np_std val = Finite (sqrt ((\<Sum>x\<leftarrow>val. (x - sum_list val / real (length val))\<^sup>2)
                                 / real (length val)))"
  by (simp add: np_mean_def np_std_def Let_def)

lemma std_key_of_list_iff:
  "std_key_of_list metrics key \<longleftrightarrow> (\<exists>k val. (k, Metric_list val) \<in> set metrics \<and> k @ ''_std'' = key)"
proof
  assume "std_key_of_list metrics key"
  then obtain k v where kv: "(k, v) \<in> set metrics" "is_list v" "k @ ''_std'' = key"
    by (auto simp: std_key_of_list_def list_ex_iff)
  then show "\<exists>k val. (k, Metric_list val) \<in> set metrics \<and> k @ ''_std'' = key"
    by (cases v) auto
next
  assume "\<exists>k val. (k, Metric_list val) \<in> set metrics \<and> k @ ''_std'' = key"
  then show "std_key_of_list metrics key"
    by (force simp: std_key_of_list_def list_ex_iff)
qed

lemma summarize_loop_frame:
  "summarize_loop n ms s = Inr s' \<Longrightarrow> key \<notin> set (concat (map writes ms)) \<Longrightarrow> s' key = s key"
proof (induction n ms s rule: summarize_loop.induct)
  case (1 n summary)
  then show ?case by simp
next
  case (2 n k val rest summary)
  let ?s = "summary(k \<mapsto> np_mean val, k @ ''_std'' \<mapsto> np_std val)"
  from "2.prems"(1) have run: "summarize_loop n rest ?s = Inr s'" by simp
  from "2.prems"(2) have nk: "key \<notin> set (concat (map writes rest))"
    and ne: "key \<noteq> k" "key \<noteq> k @ ''_std''" by auto
  from "2.IH" [OF run nk] have "s' key = ?s key" .
  with ne show ?case by simp
next
  case (3 n k val rest summary)
  let ?s = "summary(k \<mapsto> Finite (val / real_of_int n))"
  from "3.prems"(1) have n: "n \<noteq> 0" and run: "summarize_loop n rest ?s = Inr s'"
    by (simp_all split: if_splits)
  from "3.prems"(2) have nk: "key \<notin> set (concat (map writes rest))"
    and ne: "key \<noteq> k" by auto
  from "3.IH" [OF n run nk] have "s' key = ?s key" .
  with ne show ?case by simp
qed

lemma summarize_loop_nonzero:
  "summarize_loop n ms s = Inr s' \<Longrightarrow> (key, Metric_scalar val) \<in> set ms \<Longrightarrow> n \<noteq> 0"
  by (induction n ms s rule: summarize_loop.induct) (auto split: if_splits)

lemma writes_rest:
  assumes "key \<notin> fst ` set rest" and "\<not> std_key_of_list rest key"
  shows "key \<notin> set (concat (map writes rest))"
proof
  assume "key \<in> set (concat (map writes rest))"
  then obtain k v where kv: "(k, v) \<in> set rest" "key \<in> set (writes (k, v))" by auto
  show False
  proof (cases v)
    case (Metric_list val)
    with kv have "key = k \<or> key = k @ ''_std''" by auto
    with kv(1) Metric_list assms show False
      unfolding std_key_of_list_iff by force
  next
    case (Metric_scalar val)
    with kv have "key = k" by simp
    with kv(1) assms(1) show False by force
  qed
qed

lemma std_key_of_list_Cons:
  "std_key_of_list ((k, v) # rest) key \<longleftrightarrow>
     (is_list v \<and> k @ ''_std'' = key) \<or> std_key_of_list rest key"
  by (simp add: std_key_of_list_def)

lemma summarize_loop_list:
  assumes "summarize_loop n ms s = Inr s'"
    and "(key, Metric_list val) \<in> set ms"
    and "distinct (map fst ms)"
    and "key @ ''_std'' \<notin> fst ` set ms"
    and "\<not> std_key_of_list ms key"
  shows "s' key = Some (np_mean val) \<and> s' (key @ ''_std'') = Some (np_std val)"
  using assms
proof (induction n ms s rule: summarize_loop.induct)
  case (1 n summary)
  then show ?case by simp
next
  case (2 n k v rest summary)
  let ?s = "summary(k \<mapsto> np_mean v, k @ ''_std'' \<mapsto> np_std v)"
  from "2.prems"(1) have run: "summarize_loop n rest ?s = Inr s'" by simp
  show ?case
  proof (cases "k = key")
    case True
    with "2.prems"(2,3) have v: "v = val" by (auto simp: image_iff)
    from "2.prems"(3) True have nk: "key \<notin> fst ` set rest" by simp
    from "2.prems"(5) have ns: "\<not> std_key_of_list rest key"
      by (simp add: std_key_of_list_Cons)
    from "2.prems"(4) have nk': "key @ ''_std'' \<notin> fst ` set rest" by simp
    have ns': "\<not> std_key_of_list rest (key @ ''_std'')"
      unfolding std_key_of_list_iff using nk by force
    from summarize_loop_frame [OF run writes_rest [OF nk ns]]
    have a: "s' key = Some (np_mean val)" using True v by simp
    from summarize_loop_frame [OF run writes_rest [OF nk' ns']]
    have b: "s' (key @ ''_std'') = Some (np_std val)" using True v by simp
    from a b show ?thesis by simp
  next
    case False
    with "2.prems" have "(key, Metric_list val) \<in> set rest" "distinct (map fst rest)"
      "key @ ''_std'' \<notin> fst ` set rest" "\<not> std_key_of_list rest key"
      by (auto simp: std_key_of_list_Cons)
    from "2.IH" [OF run this] show ?thesis .
  qed
next
  case (3 n k v rest summary)
  from "3.prems"(1) have n: "n \<noteq> 0"
    and run: "summarize_loop n rest (summary(k \<mapsto> Finite (v / real_of_int n))) = Inr s'"
    by (simp_all split: if_splits)
  from "3.prems" have "(key, Metric_list val) \<in> set rest" "distinct (map fst rest)"
    "key @ ''_std'' \<notin> fst ` set rest" "\<not> std_key_of_list rest key"
    by (auto simp: std_key_of_list_Cons)
  from "3.IH" [OF n run this] show ?case .
qed

lemma summarize_loop_scalar:
  assumes "summarize_loop n ms s = Inr s'"
    and "(key, Metric_scalar val) \<in> set ms"
    and "distinct (map fst ms)"
    and "\<not> std_key_of_list ms key"
  shows "s' key = Some (Finite (val / real_of_int n))"
  using assms
proof (induction n ms s rule: summarize_loop.induct)
  case (1 n summary)
  then show ?case by simp
next
  case (2 n k v rest summary)
  let ?s = "summary(k \<mapsto> np_mean v, k @ ''_std'' \<mapsto> np_std v)"
  from "2.prems"(1) have run: "summarize_loop n rest ?s = Inr s'" by simp
  from "2.prems" have "(key, Metric_scalar val) \<in> set rest" "distinct (map fst rest)"
    "\<not> std_key_of_list rest key"
    by (auto simp: std_key_of_list_Cons)
  from "2.IH" [OF run this] show ?case .
next
  case (3 n k v rest summary)
  from "3.prems"(1) have n: "n \<noteq> 0"
    and run: "summarize_loop n rest (summary(k \<mapsto> Finite (v / real_of_int n))) = Inr s'"
    by (simp_all split: if_splits)
  show ?case
  proof (cases "k = key")
    case True
    with "3.prems"(2,3) have v: "v = val" by (auto simp: image_iff)
    from "3.prems"(3) True have nk: "key \<notin> fst ` set rest" by simp
    from "3.prems"(4) have ns: "\<not> std_key_of_list rest key"
      by (simp add: std_key_of_list_Cons)
    from summarize_loop_frame [OF run writes_rest [OF nk ns]]
    show ?thesis using True v by simp
  next
    case False
    with "3.prems" have "(key, Metric_scalar val) \<in> set rest" "distinct (map fst rest)"
      "\<not> std_key_of_list rest key"
      by (auto simp: std_key_of_list_Cons)
    from "3.IH" [OF n run this] show ?thesis .
  qed
qed

lemma summarize_metrics_Inr:
  "summarize_metrics metrics n = Inr summary \<Longrightarrow> summarize_loop n metrics Map.empty = Inr summary"
  by (auto simp: summarize_metrics_def split: sum.splits)

lemma summarize_loop_returns:
  "n \<noteq> 0 \<Longrightarrow> \<exists>s'. summarize_loop n ms s = Inr s'"
  by (induction n ms s rule: summarize_loop.induct) simp_all

lemma clash_metrics_run:
  "map_sum id (\<lambda>summary. summary ''mse_std'') (summarize_metrics clash_metrics 3)
     = Inr (Some (Finite 5))"
  by (simp add: summarize_metrics_def clash_metrics_def np_mean_example)

lemma clash_metrics_scalar_run:
  "map_sum id (\<lambda>summary. summary ''mse_std'') (summarize_metrics clash_metrics_scalar 3)
     = Inr (Some (Finite 1))"
  by (simp add: summarize_metrics_def clash_metrics_scalar_def np_std_example)

text \<open>
  C1 as stated fails when the dictionary itself has the key \<open>mse_std\<close>: with
  \<^verbatim>\<open>{'kld_loss': 6, 'rec_loss': 9, 'mse': [1, 3], 'mse_std': [5, 5]}\<close> the entry
  \<open>mse\<close> first stores the standard deviation 1 under \<open>mse_std\<close>, and the entry
  \<open>mse_std\<close>, visited later, overwrites it with its own mean 5.
\<close>

theorem summarize_metrics_list_counterexample:
  "distinct (map fst clash_metrics) \<and>
   (''mse'', Metric_list [1, 3]) \<in> set clash_metrics \<and>
   np_std [1, 3] = Finite 1 \<and>
   map_sum id (\<lambda>summary. summary (''mse'' @ ''_std'')) (summarize_metrics clash_metrics 3)
     = Inr (Some (Finite 5))"
  using clash_metrics_run by (simp add: np_std_example) (simp add: clash_metrics_def)

text \<open>
  C1, amended.  Whenever \<open>summarize_metrics\<close> returns a summary, every key of
  the dictionary whose value is a list has in the summary the mean of the
  list (\<open>np.mean\<close>) and, under the key followed by \<open>_std\<close>, the population
  standard deviation of the list (\<open>np.std\<close>), provided that the key followed by
  \<open>_std\<close> is not itself a key of the dictionary and the key is not another
  list-valued key followed by \<open>_std\<close>.  For a non-empty list these are the sum
  divided by the length, and the square root of the mean squared deviation
  from it.
\<close>

theorem summarize_metrics_list_mean_std:
  assumes "summarize_metrics metrics n_timesteps = Inr summary"
    and "distinct (map fst metrics)"
    and "(key, Metric_list val) \<in> set metrics"
    and "key @ ''_std'' \<notin> fst ` set metrics"
    and "\<not> std_key_of_list metrics key"
  shows "summary key = Some (np_mean val) \<and> summary (key @ ''_std'') = Some (np_std val) \<and>
    (val \<noteq> [] \<longrightarrow>
       np_mean val = Finite (sum_list val / real (length val)) \<and>
       np_std val = Finite (sqrt ((\<Sum>x\<leftarrow>val. (x - sum_list val / real (length val))\<^sup>2)
                                   / real (length val))))"
proof -
  from assms(1) have run: "summarize_loop n_timesteps metrics Map.empty = Inr summary"
    by (rule summarize_metrics_Inr)
  from summarize_loop_list [OF run assms(3) assms(2) assms(4) assms(5)]
  show ?thesis using np_std_population [of val] by blast
qed

theorem summarize_metrics_list_mean_std_witness:
  "\<exists>summary. summarize_metrics example_metrics 3 = Inr summary \<and>
     summary ''mse'' = Some (Finite 2) \<and> summary ''mse_std'' = Some (Finite 1)"
proof -
  obtain summary where r: "summarize_metrics example_metrics 3 = Inr summary"
    by (simp add: summarize_metrics_def example_metrics_def)
  have d: "distinct (map fst example_metrics)"
    and m: "(''mse'', Metric_list [1, 3]) \<in> set example_metrics"
    and k: "''mse'' @ ''_std'' \<notin> fst ` set example_metrics"
    and c: "\<not> std_key_of_list example_metrics ''mse''"
    by (simp_all add: example_metrics_def std_key_of_list_def)
  from summarize_metrics_list_mean_std [OF r d m k c]
  have "summary ''mse'' = Some (np_mean [1, 3])" "summary (''mse'' @ ''_std'') = Some (np_std [1, 3])"
    by blast+
  then have "summary ''mse'' = Some (Finite 2)" "summary ''mse_std'' = Some (Finite 1)"
    by (simp_all add: np_mean_example np_std_example)
  with r show ?thesis by blast
qed

text \<open>
  C3 as stated fails for the same reason: with
  \<^verbatim>\<open>{'kld_loss': 6, 'rec_loss': 9, 'mse_std': 6, 'mse': [1, 3]}\<close> and 3 timesteps
  the scalar entry \<open>mse_std\<close> stores 6 / 3 = 2, and the list entry \<open>mse\<close>,
  visited later, overwrites it with the standard deviation 1.
\<close>

theorem summarize_metrics_scalar_counterexample:
  "distinct (map fst clash_metrics_scalar) \<and>
   (''mse_std'', Metric_scalar 6) \<in> set clash_metrics_scalar \<and>
   Finite (6 / real_of_int 3) \<noteq> Finite 1 \<and>
   map_sum id (\<lambda>summary. summary ''mse_std'') (summarize_metrics clash_metrics_scalar 3)
     = Inr (Some (Finite 1))"
  using clash_metrics_scalar_run by simp (simp add: clash_metrics_scalar_def)

text \<open>
  C3, amended.  Whenever \<open>summarize_metrics\<close> returns a summary, every key of
  the dictionary whose value is not a list has in the summary its value
  divided by \<open>n_timesteps\<close> (which is then not zero), provided that the key is
  not a list-valued key of the dictionary followed by \<open>_std\<close>.
\<close>

theorem summarize_metrics_scalar_average:
  assumes "summarize_metrics metrics n_timesteps = Inr summary"
    and "distinct (map fst metrics)"
    and "(key, Metric_scalar val) \<in> set metrics"
    and "\<not> std_key_of_list metrics key"
  shows "n_timesteps \<noteq> 0 \<and> summary key = Some (Finite (val / real_of_int n_timesteps))"
proof -
  from assms(1) have run: "summarize_loop n_timesteps metrics Map.empty = Inr summary"
    by (rule summarize_metrics_Inr)
  from summarize_loop_nonzero [OF run assms(3)]
    summarize_loop_scalar [OF run assms(3) assms(2) assms(4)]
  show ?thesis by simp
qed

theorem summarize_metrics_scalar_average_witness:
  "\<exists>summary. summarize_metrics example_metrics 3 = Inr summary \<and>
     summary ''kld_loss'' = Some (Finite 2) \<and> summary ''rec_loss'' = Some (Finite 3)"
proof -
  obtain summary where r: "summarize_metrics example_metrics 3 = Inr summary"
    by (simp add: summarize_metrics_def example_metrics_def)
  have d: "distinct (map fst example_metrics)"
    and m: "(''kld_loss'', Metric_scalar 6) \<in> set example_metrics"
      "(''rec_loss'', Metric_scalar 9) \<in> set example_metrics"
    and c: "\<not> std_key_of_list example_metrics ''kld_loss''"
      "\<not> std_key_of_list example_metrics ''rec_loss''"
    by (simp_all add: example_metrics_def std_key_of_list_def)
  from summarize_metrics_scalar_average [OF r d m(1) c(1)]
    summarize_metrics_scalar_average [OF r d m(2) c(2)]
  have "summary ''kld_loss'' = Some (Finite 2)" "summary ''rec_loss'' = Some (Finite 3)"
    by simp_all
  with r show ?thesis by blast
qed

section \<open>Properties of compute\_metrics\<close>

lemma sum_list_swap:
  fixes f :: "'a \<Rightarrow> 'b \<Rightarrow> real"
  shows "(\<Sum>d\<leftarrow>ds. \<Sum>x\<leftarrow>xs. f x d) = (\<Sum>x\<leftarrow>xs. \<Sum>d\<leftarrow>ds. f x d)"
  by (induction xs) (simp_all add: sum_list_addf)

lemma squared_errors_ok:
  assumes "list_all (\<lambda>(m, mean, std). has_shape T B D mean \<and>
        (case targets m of None \<Rightarrow> False | Some target \<Rightarrow> has_shape T B D target)) recon"
  shows "\<exists>sqs. squared_errors recon targets = Inr sqs \<and>
     list_all2 (\<lambda>(m, mean, std) sq. has_shape T B D sq \<and>
        (\<forall>t b d. at3 sq t b d = (at3 mean t b d - at3 (the (targets m)) t b d)\<^sup>2)) recon sqs"
  using assms
proof (induction recon)
  case Nil
  then show ?case by simp
next
  case (Cons e recon)
  obtain m mean std where e: "e = (m, mean, std)" by (cases e) auto
  from Cons.prems e obtain target where tg: "targets m = Some target"
    and sh: "has_shape T B D mean" "has_shape T B D target"
    and rest: "list_all (\<lambda>(m, mean, std). has_shape T B D mean \<and>
        (case targets m of None \<Rightarrow> False | Some target \<Rightarrow> has_shape T B D target)) recon"
    by (auto split: option.splits)
  from Cons.IH [OF rest] obtain sqs where sqs: "squared_errors recon targets = Inr sqs"
    and rel: "list_all2 (\<lambda>(m, mean, std) sq. has_shape T B D sq \<and>
        (\<forall>t b d. at3 sq t b d = (at3 mean t b d - at3 (the (targets m)) t b d)\<^sup>2)) recon sqs"
    by blast
  from sh have same: "same_shape mean target" by (simp add: has_shape_def same_shape_def)
  let ?diff = "\<lparr>dim0 = dim0 mean, dim1 = dim1 mean, dim2 = dim2 mean,
                at3 = (\<lambda>t b d. at3 mean t b d - at3 target t b d)\<rparr>"
  from same have sub: "t_sub mean target = Inr ?diff" by (simp add: t_sub_def)
  have run: "squared_errors (e # recon) targets = Inr (pow2 ?diff # sqs)"
    using e tg sub sqs by simp
  have hd: "has_shape T B D (pow2 ?diff) \<and>
      (\<forall>t b d. at3 (pow2 ?diff) t b d = (at3 mean t b d - at3 (the (targets m)) t b d)\<^sup>2)"
    using sh(1) tg by (simp add: pow2_def has_shape_def)
  from run hd rel e show ?case by simp
qed

lemma sum_from_ok:
  assumes "has_shape T B D acc" and "list_all (has_shape T B D) xs"
  shows "\<exists>r. sum_from acc xs = Inr r \<and> has_shape T B D r \<and>
     (\<forall>t b d. at3 r t b d = at3 acc t b d + (\<Sum>x\<leftarrow>xs. at3 x t b d))"
  using assms
proof (induction xs arbitrary: acc)
  case Nil
  then show ?case by simp
next
  case (Cons x xs)
  from Cons.prems have x: "has_shape T B D x" and xs: "list_all (has_shape T B D) xs"
    by simp_all
  let ?acc = "\<lparr>dim0 = dim0 acc, dim1 = dim1 acc, dim2 = dim2 acc,
                at3 = (\<lambda>t b d. at3 acc t b d + at3 x t b d)\<rparr>"
  from Cons.prems(1) x have add: "t_add acc x = Inr ?acc"
    by (simp add: t_add_def same_shape_def has_shape_def)
  from Cons.prems(1) have sh: "has_shape T B D ?acc" by (simp add: has_shape_def)
  from Cons.IH [OF sh xs] obtain r where r: "sum_from ?acc xs = Inr r" "has_shape T B D r"
    "\<forall>t b d. at3 r t b d = at3 ?acc t b d + (\<Sum>x\<leftarrow>xs. at3 x t b d)"
    by blast
  from add r(1) have "sum_from acc (x # xs) = Inr r" by simp
  moreover from r(3) have "\<forall>t b d. at3 r t b d = at3 acc t b d + (\<Sum>x\<leftarrow>x # xs. at3 x t b d)"
    by simp
  ultimately show ?case using r(2) by blast
qed

lemma py_sum_ok:
  assumes "xs \<noteq> []" and "list_all (has_shape T B D) xs"
  shows "\<exists>r. py_sum xs = Inr (Some r) \<and> has_shape T B D r \<and>
     (\<forall>t b d. at3 r t b d = (\<Sum>x\<leftarrow>xs. at3 x t b d))"
proof -
  from assms(1) obtain x rest where xs: "xs = x # rest" by (cases xs) auto
  with assms(2) have "has_shape T B D x" "list_all (has_shape T B D) rest" by simp_all
  from sum_from_ok [OF this] obtain r where "sum_from x rest = Inr r" "has_shape T B D r"
    "\<forall>t b d. at3 r t b d = at3 x t b d + (\<Sum>x\<leftarrow>rest. at3 x t b d)"
    by blast
  with xs show ?thesis by simp
qed

lemma sum_over_squares:
  assumes "list_all2 (\<lambda>(m, mean, std) sq. has_shape T B D sq \<and>
        (\<forall>t b d. at3 sq t b d = (at3 mean t b d - at3 (the (targets m)) t b d)\<^sup>2)) recon sqs"
    and "list_all (\<lambda>(m, mean, std). has_shape T B D mean) recon"
  shows "(\<Sum>sq\<leftarrow>sqs. \<Sum>d\<leftarrow>[0..<D]. at3 sq t b d) =
     (\<Sum>(m, mean, std)\<leftarrow>recon.
        \<Sum>d\<leftarrow>[0..<dim2 mean]. (at3 mean t b d - at3 (the (targets m)) t b d)\<^sup>2)"
  using assms
proof (induction recon sqs rule: list_all2_induct)
  case Nil
  then show ?case by simp
next
  case (Cons e recon sq sqs)
  obtain m mean std where e: "e = (m, mean, std)" by (cases e) auto
  from Cons.hyps(1) e
  have a: "at3 sq t b = (\<lambda>d. (at3 mean t b d - at3 (the (targets m)) t b d)\<^sup>2)"
    by auto
  from Cons.prems e have d: "dim2 mean = D" and rest: "list_all (\<lambda>(m, mean, std). has_shape T B D mean) recon"
    by (simp_all add: has_shape_def)
  from Cons.IH [OF rest] a d e show ?case by simp
qed

lemma py_index_ok:
  "- int n \<le> i \<Longrightarrow> i < int n \<Longrightarrow> py_index n i = Inr (wrap n i)"
  by (auto simp: py_index_def wrap_def Let_def)

lemma index_list_ok:
  assumes "order_ok (len val) order"
  shows "index_list val order = Inr (map (\<lambda>i. at1 val (wrap (len val) i)) order)"
  using assms
  by (induction order) (simp_all add: order_ok_def py_index_ok)

lemma squares_shapes:
  "list_all2 (\<lambda>(m, mean, std) sq. has_shape T B D sq \<and> Q m mean sq) recon sqs \<Longrightarrow>
   list_all (has_shape T B D) sqs"
  by (induction recon sqs rule: list_all2_induct) auto

lemma avg_eq_spec:
  assumes ok: "batch_ok T B D recon targets msk lengths"
    and rel: "list_all2 (\<lambda>(m, mean, std) sq. has_shape T B D sq \<and>
        (\<forall>t b d. at3 sq t b d = (at3 mean t b d - at3 (the (targets m)) t b d)\<^sup>2)) recon sqs"
    and mse3: "has_shape T B D mse3" "\<forall>t b d. at3 mse3 t b d = (\<Sum>x\<leftarrow>sqs. at3 x t b d)"
  shows "time_avg msk lengths (sum_feature_dims mse3) =
     Inr \<lparr>len = B, at1 = (\<lambda>b. mse_spec recon targets msk lengths b)\<rparr>"
proof -
  from ok have m: "dim0 msk = T" "dim1 msk = B" "dim2 msk = 1" and l: "length lengths = B"
    and sh: "list_all (\<lambda>(m, mean, std). has_shape T B D mean) recon"
    by (auto simp: batch_ok_def has_shape_def list_all_iff)
  from mse3(1) have d: "dim0 mse3 = T" "dim1 mse3 = B" "dim2 mse3 = D"
    by (simp_all add: has_shape_def)
  have feat: "(\<Sum>d\<leftarrow>[0..<D]. at3 mse3 t b d) =
      (\<Sum>(m, mean, std)\<leftarrow>recon.
         \<Sum>d\<leftarrow>[0..<dim2 mean]. (at3 mean t b d - at3 (the (targets m)) t b d)\<^sup>2)" for t b
  proof -
    have "(\<Sum>d\<leftarrow>[0..<D]. at3 mse3 t b d) = (\<Sum>d\<leftarrow>[0..<D]. \<Sum>x\<leftarrow>sqs. at3 x t b d)"
      using mse3(2) by simp
    also have "\<dots> = (\<Sum>x\<leftarrow>sqs. \<Sum>d\<leftarrow>[0..<D]. at3 x t b d)"
      by (rule sum_list_swap)
    also have "\<dots> = (\<Sum>(m, mean, std)\<leftarrow>recon.
         \<Sum>d\<leftarrow>[0..<dim2 mean]. (at3 mean t b d - at3 (the (targets m)) t b d)\<^sup>2)"
      by (rule sum_over_squares [OF rel sh])
    finally show ?thesis .
  qed
  have step: "(if \<not> at3 msk t b 0 then 0 else (\<Sum>d\<leftarrow>[0..<D]. at3 mse3 t b d)) =
      step_error recon targets msk t b" for t b
    by (simp add: step_error_def feat)
  have "time_avg msk lengths (sum_feature_dims mse3) =
      Inr \<lparr>len = B, at1 = (\<lambda>b. float_div
        (\<Sum>t\<leftarrow>[0..<T]. if \<not> at3 msk t b 0 then 0 else (\<Sum>d\<leftarrow>[0..<D]. at3 mse3 t b d))
        (real_of_int (lengths ! b)))\<rparr>"
    by (simp add: time_avg_def squeeze_last_def zero_where_not_def sum_dim0_def
        div_lengths_def sum_feature_dims_def m l d cong: if_cong)
  also have "\<dots> = Inr \<lparr>len = B, at1 = (\<lambda>b. mse_spec recon targets msk lengths b)\<rparr>"
    unfolding step mse_spec_def m by simp
  finally show ?thesis .
qed

text \<open>
  C4.  For a batch in which every reconstruction mean and its target have the
  shape \<open>(T, B, D)\<close>, the mask has the shape \<open>(T, B, 1)\<close>, there is one length per
  sequence and \<open>order\<close> holds valid indices, \<open>compute_metrics\<close> returns, and the
  entry \<open>i\<close> of \<open>mse\<close> is the value of the sequence \<open>order[i]\<close>: the squared error
  summed over the modalities and the feature dimension at each time-step,
  replaced by zero where the mask is off, summed over time and divided by the
  length of that sequence.
\<close>

theorem compute_metrics_mse:
  assumes "batch_ok T B D recon targets msk lengths" and "order_ok B order"
  shows "compute_metrics model_kld_loss model_rec_loss recon targets msk lengths order =
      Inr \<lparr>kld_loss = model_kld_loss, rec_loss = model_rec_loss,
           mse = map (\<lambda>i. mse_spec recon targets msk lengths (wrap B i)) order\<rparr> \<and>
    (\<forall>b. lengths ! b \<noteq> 0 \<longrightarrow>
       mse_spec recon targets msk lengths b =
         Finite ((\<Sum>t\<leftarrow>[0..<T].
                    if at3 msk t b 0
                    then (\<Sum>(m, mean, std)\<leftarrow>recon. \<Sum>d\<leftarrow>[0..<D].
                            (at3 mean t b d - at3 (the (targets m)) t b d)\<^sup>2)
                    else 0)
                 / real_of_int (lengths ! b)))"
proof
  from assms(1) have ne: "recon \<noteq> []"
    and sh: "list_all (\<lambda>(m, mean, std). has_shape T B D mean \<and>
        (case targets m of None \<Rightarrow> False | Some target \<Rightarrow> has_shape T B D target)) recon"
    by (simp_all add: batch_ok_def)
  from squared_errors_ok [OF sh] obtain sqs where sqs: "squared_errors recon targets = Inr sqs"
    and rel: "list_all2 (\<lambda>(m, mean, std) sq. has_shape T B D sq \<and>
        (\<forall>t b d. at3 sq t b d = (at3 mean t b d - at3 (the (targets m)) t b d)\<^sup>2)) recon sqs"
    by blast
  from rel have shapes: "list_all (has_shape T B D) sqs" by (rule squares_shapes)
  from rel ne have "sqs \<noteq> []" by (auto dest: list_all2_lengthD)
  from py_sum_ok [OF this shapes] obtain mse3 where s: "py_sum sqs = Inr (Some mse3)"
    and m3: "has_shape T B D mse3" "\<forall>t b d. at3 mse3 t b d = (\<Sum>x\<leftarrow>sqs. at3 x t b d)"
    by blast
  note avg = avg_eq_spec [OF assms(1) rel m3]
  let ?avg = "\<lparr>len = B, at1 = (\<lambda>b. mse_spec recon targets msk lengths b)\<rparr>"
  from assms(2) have "order_ok (len ?avg) order" by simp
  from index_list_ok [OF this]
  have idx: "index_list ?avg order =
      Inr (map (\<lambda>i. mse_spec recon targets msk lengths (wrap B i)) order)"
    by simp
  show "compute_metrics model_kld_loss model_rec_loss recon targets msk lengths order =
      Inr \<lparr>kld_loss = model_kld_loss, rec_loss = model_rec_loss,
           mse = map (\<lambda>i. mse_spec recon targets msk lengths (wrap B i)) order\<rparr>"
    by (simp add: compute_metrics_def sqs s avg idx)
next
  from assms(1) have m: "dim0 msk = T"
    and sh: "list_all (\<lambda>(m, mean, std). dim2 mean = D) recon"
    by (auto simp: batch_ok_def has_shape_def list_all_iff)
  have inner: "(\<Sum>(m, mean, std)\<leftarrow>recon. \<Sum>d\<leftarrow>[0..<dim2 mean].
        (at3 mean t b d - at3 (the (targets m)) t b d)\<^sup>2) =
      (\<Sum>(m, mean, std)\<leftarrow>recon. \<Sum>d\<leftarrow>[0..<D].
        (at3 mean t b d - at3 (the (targets m)) t b d)\<^sup>2)" for t b
    using sh by (induction recon) auto
  show "\<forall>b. lengths ! b \<noteq> 0 \<longrightarrow>
       mse_spec recon targets msk lengths b =
         Finite ((\<Sum>t\<leftarrow>[0..<T].
                    if at3 msk t b 0
                    then (\<Sum>(m, mean, std)\<leftarrow>recon. \<Sum>d\<leftarrow>[0..<D].
                            (at3 mean t b d - at3 (the (targets m)) t b d)\<^sup>2)
                    else 0)
                 / real_of_int (lengths ! b))"
    by (simp add: mse_spec_def step_error_def float_div_def m inner cong: if_cong)
qed

lemma example_shapes:
  "batch_ok 3 2 1 example_recon example_targets example_mask [2, 3]"
  by (simp add: batch_ok_def example_recon_def example_targets_def example_mask_def
      has_shape_def of_lists3_def)

lemma example_spec:
  "mse_spec example_recon example_targets example_mask [2, 3] 0 = Finite 5"
  "mse_spec example_recon example_targets example_mask [2, 3] (Suc 0) = Finite (23 / 3)"
  by (simp_all add: mse_spec_def step_error_def float_div_def example_recon_def
      example_targets_def example_mask_def of_lists3_def upt_rec)

theorem compute_metrics_mse_witness:
  "batch_ok 3 2 1 example_recon example_targets example_mask [2, 3] \<and> order_ok 2 [1, 0] \<and>
   compute_metrics 7 8 example_recon example_targets example_mask [2, 3] [1, 0] =
     Inr \<lparr>kld_loss = 7, rec_loss = 8, mse = [Finite (23 / 3), Finite 5]\<rparr>"
proof -
  have o: "order_ok 2 [1, 0]" by (simp add: order_ok_def)
  from compute_metrics_mse [OF example_shapes o, of 7 8]
  have "compute_metrics 7 8 example_recon example_targets example_mask [2, 3] [1, 0] =
      Inr \<lparr>kld_loss = 7, rec_loss = 8,
           mse = map (\<lambda>i. mse_spec example_recon example_targets example_mask [2, 3] (wrap 2 i))
                   [1, 0]\<rparr>"
    by blast
  moreover have "wrap 2 1 = 1" "wrap 2 0 = 0" by (simp_all add: wrap_def)
  ultimately show ?thesis using example_shapes o by (simp add: example_spec)
qed

end
